theory Spec2Isabelle
  imports Complex_Main
begin

section \<open>JavaScript values used by the coordinator\<close>

text \<open>
  The coordinator (the Socket.IO server of the repository) handles payloads that
  TypeScript leaves untyped, and it stores every field of a Redis hash as a string.
  A JavaScript \<open>number\<close> is modelled as an integer (all numbers of the server are
  millisecond timestamps and second counts) or \<open>NaN\<close>. A value of an untyped payload
  field is \<open>undefined\<close>, \<open>null\<close>, a string or a number.
\<close>

datatype number = Fin int | NaN

datatype jsval = Undefined | Null | JStr string | JNum number

text \<open>Truthiness, as used by \<open>!roomId\<close>, \<open>raw.createdAt ? ... : ...\<close> and \<open>!meta.roundEnd\<close>.\<close>

fun truthy_number :: "number \<Rightarrow> bool" where
  "truthy_number (Fin i) = (i \<noteq> 0)"
| "truthy_number NaN = False"

fun truthy :: "jsval \<Rightarrow> bool" where
  "truthy Undefined = False"
| "truthy Null = False"
| "truthy (JStr s) = (s \<noteq> [])"
| "truthy (JNum n) = truthy_number n"

text \<open>
  \<open>String(value)\<close>: the decimal rendering of an integer. \<open>digits\<close> lists the decimal
  digits of a natural number, most significant first.
\<close>

definition digit_char :: "nat \<Rightarrow> char" where
  "digit_char d = char_of (48 + d)"

function digits :: "nat \<Rightarrow> string" where
  "digits n = (if n < 10 then [digit_char n] else digits (n div 10) @ [digit_char (n mod 10)])"
  by pat_completeness auto
termination
  by (relation "measure (\<lambda>n. n)") auto

declare digits.simps [simp del]

definition String_int :: "int \<Rightarrow> string" where
  "String_int i = (if i < 0 then CHR ''-'' # digits (nat (- i)) else digits (nat i))"

fun String_number :: "number \<Rightarrow> string" where
  "String_number (Fin i) = String_int i"
| "String_number NaN = ''NaN''"

fun String :: "jsval \<Rightarrow> string" where
  "String Undefined = ''undefined''"
| "String Null = ''null''"
| "String (JStr s) = s"
| "String (JNum n) = String_number n"

text \<open>
  \<open>Number(string)\<close> on the spellings the coordinator writes: an optional minus sign
  followed by decimal digits, and the empty string (which is 0). Every other string is
  taken to \<open>NaN\<close>; JavaScript also reads exponents, fractions, hexadecimal literals and
  surrounding white space, none of which \<open>String\<close> produces from an integer.
\<close>

definition is_digit :: "char \<Rightarrow> bool" where
  "is_digit c = (48 \<le> (of_char c :: nat) \<and> (of_char c :: nat) \<le> 57)"

definition digit_val :: "char \<Rightarrow> nat" where
  "digit_val c = of_char c - 48"

definition decimal :: "string \<Rightarrow> nat" where
  "decimal ds = foldl (\<lambda>a c. 10 * a + digit_val c) 0 ds"

definition Number :: "string \<Rightarrow> number" where
  "Number s =
     (case s of
        [] \<Rightarrow> Fin 0
      | c # ds \<Rightarrow>
          if c = CHR ''-'' then
            (if ds \<noteq> [] \<and> list_all is_digit ds then Fin (- int (decimal ds)) else NaN)
          else if list_all is_digit s then Fin (int (decimal s)) else NaN)"

section \<open>The store\<close>

text \<open>
  Modelled from the spec: the store client (\<open>@upstash/redis\<close>) is an external
  collaborator, "a remote hash-map/string store" with the persisted key layout
  \<open>room:{id}:meta\<close> (field map), \<open>room:{id}:player:{sessionId}\<close> (field map) and
  \<open>room:{id}:graph:{sessionId}\<close> (opaque string). The three key families are kept as
  three maps, indexed by the components the source puts into the key; the pattern
  \<open>room:{id}:player:*\<close> of \<open>redis.keys\<close> selects the player keys of room \<open>id\<close>, and
  \<open>key.split(":").pop()\<close> gives back the session id. This is what the key strings
  determine when session ids have no colon (Socket.IO ids have none) and no room id
  continues another one by a \<open>:player:\<close> or \<open>:graph:\<close> segment. \<open>hgetall\<close> returns the
  field map of the key, which the source casts to a record of optional strings.
\<close>

type_synonym hash = "string \<rightharpoonup> string"

record redis =
  meta :: "string \<rightharpoonup> hash"
  player :: "string \<times> string \<rightharpoonup> hash"
  graph :: "string \<times> string \<rightharpoonup> string"

definition hgetall :: "('k \<rightharpoonup> hash) \<Rightarrow> 'k \<Rightarrow> hash" where
  "hgetall m k = (case m k of None \<Rightarrow> Map.empty | Some h \<Rightarrow> h)"

text \<open>\<open>HSET key f1 v1 f2 v2 ...\<close> merges the fields into the hash, creating it if absent.\<close>

definition hset :: "('k \<rightharpoonup> hash) \<Rightarrow> 'k \<Rightarrow> (string \<times> string) list \<Rightarrow> ('k \<rightharpoonup> hash)" where
  "hset m k kvs = m(k \<mapsto> fold (\<lambda>(f, v) h. h(f \<mapsto> v)) kvs (hgetall m k))"

definition del :: "('k \<rightharpoonup> 'v) \<Rightarrow> 'k \<Rightarrow> ('k \<rightharpoonup> 'v)" where
  "del m k = m(k := None)"

definition empty_redis :: redis where
  "empty_redis = \<lparr>meta = Map.empty, player = Map.empty, graph = Map.empty\<rparr>"

section \<open>Room state model\<close>

record RoomMeta =
  fee :: string
  createdAt :: number
  asset :: "string option"
  roundEnd :: "number option"
  owner :: "string option"

record PlayerData =
  nickname :: string
  wallet :: string
  joinedAt :: number

text \<open>\<open>now\<close> is the value of \<open>Date.now()\<close> when the record is parsed.\<close>

definition parseRoomMeta :: "int \<Rightarrow> hash \<Rightarrow> RoomMeta" where
  "parseRoomMeta now raw =
     \<lparr>fee = (case raw ''fee'' of None \<Rightarrow> [] | Some v \<Rightarrow> v),
      createdAt = (case raw ''createdAt'' of
                     None \<Rightarrow> Fin now
                   | Some v \<Rightarrow> if v \<noteq> [] then Number v else Fin now),
      asset = raw ''asset'',
      roundEnd = (case raw ''roundEnd'' of
                    None \<Rightarrow> None
                  | Some v \<Rightarrow> if v \<noteq> [] then Some (Number v) else None),
      owner = raw ''owner''\<rparr>"

definition parsePlayerData :: "int \<Rightarrow> hash \<Rightarrow> PlayerData" where
  "parsePlayerData now raw =
     \<lparr>nickname = (case raw ''nickname'' of None \<Rightarrow> [] | Some v \<Rightarrow> v),
      wallet = (case raw ''wallet'' of None \<Rightarrow> [] | Some v \<Rightarrow> v),
      joinedAt = (case raw ''joinedAt'' of
                    None \<Rightarrow> Fin now
                  | Some v \<Rightarrow> if v \<noteq> [] then Number v else Fin now)\<rparr>"

text \<open>
  The loop of \<open>setRoomMeta\<close> and \<open>setPlayer\<close> over the keys of the partial record: a
  field whose value is neither \<open>undefined\<close> nor \<open>null\<close> is written as \<open>String(value)\<close>.
  A partial record is the list of its (key, value) entries.
\<close>

fun fieldsToSet :: "(string \<times> jsval) list \<Rightarrow> (string \<times> string) list" where
  "fieldsToSet [] = []"
| "fieldsToSet ((key, v) # rest) =
     (if v \<noteq> Undefined \<and> v \<noteq> Null then (key, String v) # fieldsToSet rest
      else fieldsToSet rest)"

definition setRoomMeta :: "string \<Rightarrow> (string \<times> jsval) list \<Rightarrow> redis \<Rightarrow> redis" where
  "setRoomMeta roomId partial r =
     (if fieldsToSet partial \<noteq> [] then r\<lparr>meta := hset (meta r) roomId (fieldsToSet partial)\<rparr>
      else r)"

definition setPlayer :: "string \<Rightarrow> string \<Rightarrow> (string \<times> jsval) list \<Rightarrow> redis \<Rightarrow> redis" where
  "setPlayer roomId socketId partial r =
     (if fieldsToSet partial \<noteq> []
      then r\<lparr>player := hset (player r) (roomId, socketId) (fieldsToSet partial)\<rparr>
      else r)"

definition getAllPlayers :: "int \<Rightarrow> redis \<Rightarrow> string \<Rightarrow> (string \<rightharpoonup> PlayerData)" where
  "getAllPlayers now r roomId =
     (\<lambda>id. case player r (roomId, id) of
              None \<Rightarrow> None
            | Some dataRaw \<Rightarrow> Some (parsePlayerData now dataRaw))"

definition getAllDrawings :: "redis \<Rightarrow> string \<Rightarrow> (string \<rightharpoonup> string)" where
  "getAllDrawings r roomId =
     (\<lambda>id. case graph r (roomId, id) of
              None \<Rightarrow> None
            | Some drawing \<Rightarrow> if drawing \<noteq> [] then Some drawing else None)"

definition getRoomMeta :: "int \<Rightarrow> redis \<Rightarrow> string \<Rightarrow> RoomMeta" where
  "getRoomMeta now r roomId = parseRoomMeta now (hgetall (meta r) roomId)"

section \<open>Outbound events\<close>

record user =
  u_id :: string
  u_nickname :: string
  u_wallet :: string
  isSelf :: bool

datatype out_event =
    RoomCreated jsval
  | RoomCreateError string
  | Users "string \<rightharpoonup> user"
  | Meta RoomMeta
  | RoundStarted number "string option"
  | StartRoundError string
  | Timer int
  | Drawing string string
  | RoundEnd RoomMeta "string \<rightharpoonup> PlayerData" "string \<rightharpoonup> string"

text \<open>
  \<open>socket.emit\<close> sends to the calling connection alone, \<open>io.to(roomId).emit\<close> to every
  connection in the room, the sender not excepted.
\<close>

datatype target = ToSocket string | ToRoom string

type_synonym emission = "target \<times> out_event"

definition broadcastMeta :: "int \<Rightarrow> redis \<Rightarrow> string \<Rightarrow> emission list" where
  "broadcastMeta now r roomId = [(ToRoom roomId, Meta (getRoomMeta now r roomId))]"

text \<open>
  The \<open>users\<close> payload lists one entry per player of the room; the order of the entries
  is the order in which the store returns the keys, so the payload is kept as the map
  from the id to its entry.
\<close>

definition broadcastUsers :: "int \<Rightarrow> redis \<Rightarrow> string \<Rightarrow> string \<Rightarrow> emission list" where
  "broadcastUsers now r roomId selfId =
     [(ToRoom roomId,
       Users (\<lambda>id. case getAllPlayers now r roomId id of
                      None \<Rightarrow> None
                    | Some d \<Rightarrow> Some \<lparr>u_id = id, u_nickname = nickname d, u_wallet = wallet d,
                                      isSelf = (id = selfId)\<rparr>))]"

section \<open>Connections, timers and the handlers\<close>

text \<open>
  The coordinator's own state besides the store: \<open>rooms s\<close> is \<open>socket.rooms\<close> of the
  connection with id \<open>s\<close>, in insertion order, and \<open>timers\<close> lists the live intervals,
  each with the room id, the \<open>roundEnd\<close> its callback has captured and its period in
  milliseconds. A handler runs as
  one step at one clock reading \<open>now\<close>, and returns the new state with the events it
  emits, in order.
\<close>

record state =
  store :: redis
  rooms :: "string \<Rightarrow> string list"
  timers :: "(string \<times> int \<times> int) list"

definition recipients :: "state \<Rightarrow> target \<Rightarrow> string set" where
  "recipients st t = (case t of ToSocket s \<Rightarrow> {s} | ToRoom r \<Rightarrow> {s. r \<in> set (rooms st s)})"

definition js_of_option :: "string option \<Rightarrow> jsval" where
  "js_of_option x = (case x of None \<Rightarrow> Undefined | Some s \<Rightarrow> JStr s)"

text \<open>
  \<open>create_lobby_room\<close> takes \<open>entryFee\<close>, \<open>wallet\<close>, \<open>nickname\<close> and \<open>roomId\<close> from an
  untyped payload (\<open>maxParticipants\<close> is not used); the room id goes into the keys by
  string interpolation.
\<close>

definition create_lobby_room ::
  "string \<Rightarrow> jsval \<Rightarrow> jsval \<Rightarrow> jsval \<Rightarrow> jsval \<Rightarrow> int \<Rightarrow> state \<Rightarrow> state \<times> emission list" where
  "create_lobby_room sid entryFee w nick roomId now st =
     (if \<not> truthy roomId then (st, [(ToSocket sid, RoomCreateError ''No roomId from contract.'')])
      else
        let r1 = setRoomMeta (String roomId)
                   [(''fee'', entryFee), (''createdAt'', JNum (Fin now)),
                    (''roundEnd'', Null), (''owner'', w)] (store st);
            r2 = setPlayer (String roomId) sid
                   [(''nickname'', nick), (''wallet'', w), (''joinedAt'', JNum (Fin now))] r1
        in (st\<lparr>store := r2\<rparr>, [(ToSocket sid, RoomCreated roomId)]))"

definition socket_join :: "string \<Rightarrow> string list \<Rightarrow> string list" where
  "socket_join roomId rs = (if roomId \<in> set rs then rs else rs @ [roomId])"

text \<open>The \<open>join\<close> payload also carries \<open>fee\<close>, which the handler does not use.\<close>

definition join ::
  "string \<Rightarrow> string \<Rightarrow> string \<Rightarrow> string \<Rightarrow> string option \<Rightarrow> int \<Rightarrow> state \<Rightarrow> state \<times> emission list" where
  "join sid roomId nick w asset_opt now st =
     (let rs = (rooms st)(sid := socket_join roomId (rooms st sid));
          r1 = setRoomMeta roomId [(''asset'', js_of_option asset_opt)] (store st);
          r2 = r1\<lparr>player := hset (player r1) (roomId, sid)
                   [(''nickname'', nick), (''wallet'', w), (''joinedAt'', String_int now)]\<rparr>
      in (st\<lparr>store := r2, rooms := rs\<rparr>,
          broadcastUsers now r2 roomId sid @ broadcastMeta now r2 roomId))"

definition startTimer :: "string \<Rightarrow> int \<Rightarrow> state \<Rightarrow> state" where
  "startTimer roomId now st =
     (case roundEnd (parseRoomMeta now (hgetall (meta (store st)) roomId)) of
        Some (Fin e) \<Rightarrow> if e \<noteq> 0 then st\<lparr>timers := timers st @ [(roomId, e, 1000)]\<rparr> else st
      | _ \<Rightarrow> st)"

definition round_running :: "RoomMeta \<Rightarrow> int \<Rightarrow> bool" where
  "round_running m now = (case roundEnd m of Some (Fin e) \<Rightarrow> e \<noteq> 0 \<and> e > now | _ \<Rightarrow> False)"

definition start_round :: "string \<Rightarrow> string \<Rightarrow> jsval \<Rightarrow> int \<Rightarrow> state \<Rightarrow> state \<times> emission list" where
  "start_round sid roomId w now st =
     (let m = parseRoomMeta now (hgetall (meta (store st)) roomId) in
      if w \<noteq> js_of_option (owner m)
      then (st, [(ToSocket sid, StartRoundError ''Only room owner can start round.'')])
      else if round_running m now
      then (st, [(ToSocket sid, StartRoundError ''Round already started.'')])
      else
        let e = now + 5 * 60 * 1000;
            r1 = setRoomMeta roomId [(''roundEnd'', JNum (Fin e))] (store st)
        in (startTimer roomId now (st\<lparr>store := r1\<rparr>),
            [(ToRoom roomId, RoundStarted (Fin e) (owner m))]))"

definition set_nickname :: "string \<Rightarrow> string \<Rightarrow> jsval \<Rightarrow> int \<Rightarrow> state \<Rightarrow> state \<times> emission list" where
  "set_nickname sid roomId nick now st =
     (let r1 = setPlayer roomId sid [(''nickname'', nick)] (store st)
      in (st\<lparr>store := r1\<rparr>, broadcastUsers now r1 roomId sid))"

definition drawing_submit :: "string \<Rightarrow> string \<Rightarrow> string \<Rightarrow> state \<Rightarrow> state \<times> emission list" where
  "drawing_submit sid roomId drawing st =
     (st\<lparr>store := (store st)\<lparr>graph := (graph (store st))((roomId, sid) \<mapsto> drawing)\<rparr>\<rparr>,
      [(ToRoom roomId, Drawing sid drawing)])"

text \<open>
  The \<open>disconnect\<close> handler: \<open>socket_rooms\<close> is the content of \<open>socket.rooms\<close> when the
  handler runs. The loop visits the ids that start with \<open>room:\<close>.
\<close>

definition startsWith :: "string \<Rightarrow> string \<Rightarrow> bool" where
  "startsWith s p = (take (length p) s = p)"

fun disconnect_loop :: "string \<Rightarrow> int \<Rightarrow> string list \<Rightarrow> redis \<Rightarrow> redis \<times> emission list" where
  "disconnect_loop sid now [] r = (r, [])"
| "disconnect_loop sid now (room # rest) r =
     (let r1 = r\<lparr>player := del (player r) (room, sid)\<rparr>;
          r2 = r1\<lparr>graph := del (graph r1) (room, sid)\<rparr>;
          out = broadcastUsers now r2 room sid;
          (r3, outs) = disconnect_loop sid now rest r2
      in (r3, out @ outs))"

definition disconnect :: "string \<Rightarrow> string list \<Rightarrow> int \<Rightarrow> redis \<Rightarrow> redis \<times> emission list" where
  "disconnect sid socket_rooms now r =
     disconnect_loop sid now (filter (\<lambda>id. startsWith id ''room:'') socket_rooms) r"

text \<open>
  The callback of the interval that \<open>startTimer\<close> installs, for the captured \<open>roundEnd\<close>:
  it returns the events of the tick and whether it has cleared the interval.
\<close>

definition timer_tick :: "string \<Rightarrow> int \<Rightarrow> int \<Rightarrow> redis \<Rightarrow> emission list \<times> bool" where
  "timer_tick roomId e now r =
     (let timeLeft = max 0 ((e - now) div 1000) in
      if timeLeft \<le> 0
      then ([(ToRoom roomId, Timer timeLeft),
             (ToRoom roomId,
              RoundEnd (parseRoomMeta now (hgetall (meta r) roomId))
                       (getAllPlayers now r roomId) (getAllDrawings r roomId))], True)
      else ([(ToRoom roomId, Timer timeLeft)], False))"

section \<open>Runs of the coordinator\<close>

text \<open>
  An inbound event with its payload, the id of the connection it arrives on and the
  clock reading of its handler; \<open>Tick i now\<close> is one callback of the \<open>i\<close>-th live
  interval. When a connection disconnects, the handler sees the rooms the connection is
  in, and the connection is in no room afterwards.
\<close>

datatype event =
    CreateLobbyRoom string jsval jsval jsval jsval int
  | Join string string string string "string option" int
  | StartRound string string jsval int
  | SetNickname string string jsval int
  | DrawingSubmit string string string
  | Disconnect string int
  | Tick nat int


fun step :: "event \<Rightarrow> state \<Rightarrow> state \<times> emission list" where
  "step (CreateLobbyRoom sid entryFee w nick roomId now) st =
     create_lobby_room sid entryFee w nick roomId now st"
| "step (Join sid roomId nick w asset_opt now) st = join sid roomId nick w asset_opt now st"
| "step (StartRound sid roomId w now) st = start_round sid roomId w now st"
| "step (SetNickname sid roomId nick now) st = set_nickname sid roomId nick now st"
| "step (DrawingSubmit sid roomId drawing) st = drawing_submit sid roomId drawing st"
| "step (Disconnect sid now) st =
     (case disconnect sid (rooms st sid) now (store st) of
        (r, out) \<Rightarrow> (st\<lparr>store := r, rooms := (rooms st)(sid := [])\<rparr>, out))"
| "step (Tick i now) st =
     (if i < length (timers st) then
        (case timers st ! i of
           (roomId, e, period) \<Rightarrow>
             (case timer_tick roomId e now (store st) of
                (out, cleared) \<Rightarrow>
                  (if cleared then st\<lparr>timers := take i (timers st) @ drop (Suc i) (timers st)\<rparr>
                   else st, out)))
      else (st, []))"

fun run :: "event list \<Rightarrow> state \<Rightarrow> state" where
  "run [] st = st"
| "run (ev # evs) st = run evs (fst (step ev st))"

definition init_state :: state where
  "init_state = \<lparr>store = empty_redis, rooms = (\<lambda>s. [s]), timers = []\<rparr>"

text \<open>
  One interval on its own: the callbacks fire at the clock readings of the schedule,
  each finding the store as it is then, until a callback clears the interval.
\<close>

fun timer_run :: "string \<Rightarrow> int \<Rightarrow> (int \<times> redis) list \<Rightarrow> emission list" where
  "timer_run roomId e [] = []"
| "timer_run roomId e ((now, r) # rest) =
     (case timer_tick roomId e now r of
        (out, cleared) \<Rightarrow> if cleared then out else out @ timer_run roomId e rest)"

text \<open>The first \<open>n\<close> callbacks of a schedule given by its clock readings and stores.\<close>

definition schedule :: "(nat \<Rightarrow> int) \<Rightarrow> (nat \<Rightarrow> redis) \<Rightarrow> nat \<Rightarrow> (int \<times> redis) list" where
  "schedule t rs n = map (\<lambda>k. (t k, rs k)) [0..<n]"

fun timer_values :: "emission list \<Rightarrow> int list" where
  "timer_values [] = []"
| "timer_values ((tg, Timer v) # out) = v # timer_values out"
| "timer_values ((tg, ev) # out) = timer_values out"

fun is_round_end :: "emission \<Rightarrow> bool" where
  "is_round_end (tg, RoundEnd m ps ds) = True"
| "is_round_end (tg, ev) = False"

text \<open>
  "The stored \<open>roundEnd\<close> is greater than the current time", in the words of the
  specification: the condition under which a round counts as running.
\<close>

definition roundEnd_after :: "RoomMeta \<Rightarrow> int \<Rightarrow> bool" where
  "roundEnd_after m now = (case roundEnd m of Some (Fin e) \<Rightarrow> now < e | _ \<Rightarrow> False)"

text \<open>
  A state for the examples: room \<open>R1\<close> created by wallet \<open>W1\<close> with fee \<open>10\<close>, a round
  that ends at 301000, and the connections \<open>s1\<close> and \<open>s2\<close> joined with a player record
  each.
\<close>

definition example_redis :: redis where
  "example_redis =
     \<lparr>meta = [''R1'' \<mapsto> [''fee'' \<mapsto> ''10'', ''owner'' \<mapsto> ''W1'',
                          ''roundEnd'' \<mapsto> String_int 301000]],
      player = [(''R1'', ''s1'') \<mapsto> [''nickname'' \<mapsto> ''alice'', ''wallet'' \<mapsto> ''W1''],
                (''R1'', ''s2'') \<mapsto> [''nickname'' \<mapsto> ''bob'', ''wallet'' \<mapsto> ''W2'']],
      graph = Map.empty\<rparr>"

definition example_state :: state where
  "example_state =
     \<lparr>store = example_redis,
      rooms = (\<lambda>s. if s = ''s1'' \<or> s = ''s2'' then [s, ''R1''] else [s]),
      timers = []\<rparr>"

text \<open>The field \<open>roundEnd\<close> of a room's meta as it is stored.\<close>

definition stored_roundEnd :: "state \<Rightarrow> string \<Rightarrow> string option" where
  "stored_roundEnd st roomId = hgetall (meta (store st)) roomId ''roundEnd''"

section \<open>The merge contract in the words of the specification\<close>

text \<open>
  "\<open>readRoomMeta\<close> returns the union of all fields supplied across the calls, with later
  writes overriding earlier ones for the same field, and each field never written holds
  its documented default." \<open>last_supplied untouched k partial acc\<close> is the value that the
  call \<open>partial\<close> leaves for field \<open>k\<close> when \<open>acc\<close> was there before, where \<open>untouched\<close>
  tells the values that count as not supplied; \<open>union_of_calls\<close> runs through the calls
  in order, and \<open>read_union\<close> fills in the defaults.
\<close>

fun last_supplied ::
  "(jsval \<Rightarrow> bool) \<Rightarrow> string \<Rightarrow> (string \<times> jsval) list \<Rightarrow> jsval option \<Rightarrow> jsval option" where
  "last_supplied untouched k [] acc = acc"
| "last_supplied untouched k ((k', v) # rest) acc =
     last_supplied untouched k rest (if k' = k \<and> \<not> untouched v then Some v else acc)"

definition union_of_calls ::
  "(jsval \<Rightarrow> bool) \<Rightarrow> (string \<times> jsval) list list \<Rightarrow> string \<Rightarrow> jsval option" where
  "union_of_calls untouched calls k = fold (last_supplied untouched k) calls None"

definition read_union :: "int \<Rightarrow> (string \<Rightarrow> jsval option) \<Rightarrow> RoomMeta" where
  "read_union now u =
     \<lparr>fee = (case u ''fee'' of Some (JStr s) \<Rightarrow> s | _ \<Rightarrow> []),
      createdAt = (case u ''createdAt'' of Some (JNum n) \<Rightarrow> n | _ \<Rightarrow> Fin now),
      asset = (case u ''asset'' of Some (JStr s) \<Rightarrow> Some s | _ \<Rightarrow> None),
      roundEnd = (case u ''roundEnd'' of Some (JNum n) \<Rightarrow> Some n | _ \<Rightarrow> None),
      owner = (case u ''owner'' of Some (JStr s) \<Rightarrow> Some s | _ \<Rightarrow> None)\<rparr>"

text \<open>The specification leaves a field untouched when it is supplied as \<open>undefined\<close>.\<close>

definition undefined_only :: "jsval \<Rightarrow> bool" where
  "undefined_only v = (v = Undefined)"

text \<open>\<open>setRoomMeta\<close> skips a value that is \<open>undefined\<close> or \<open>null\<close>.\<close>

definition undefined_or_null :: "jsval \<Rightarrow> bool" where
  "undefined_or_null v = (v = Undefined \<or> v = Null)"

text \<open>
  The entries of a \<open>Partial<RoomMeta>\<close>: \<open>fee\<close>, \<open>asset\<close> and \<open>owner\<close> are strings,
  \<open>createdAt\<close> is a number, \<open>roundEnd\<close> is a number or \<open>null\<close>, and each may be
  \<open>undefined\<close>.
\<close>

fun is_string_or_undefined :: "jsval \<Rightarrow> bool" where
  "is_string_or_undefined Undefined = True"
| "is_string_or_undefined (JStr s) = True"
| "is_string_or_undefined v = False"

fun is_number_or_undefined :: "jsval \<Rightarrow> bool" where
  "is_number_or_undefined Undefined = True"
| "is_number_or_undefined (JNum n) = True"
| "is_number_or_undefined v = False"

fun partial_meta_entry :: "string \<times> jsval \<Rightarrow> bool" where
  "partial_meta_entry (k, v) =
     (if k = ''fee'' \<or> k = ''asset'' \<or> k = ''owner'' then is_string_or_undefined v
      else if k = ''createdAt'' then is_number_or_undefined v
      else if k = ''roundEnd'' then v = Null \<or> is_number_or_undefined v
      else False)"

definition partial_meta :: "(string \<times> jsval) list \<Rightarrow> bool" where
  "partial_meta partial = list_all partial_meta_entry partial"

text \<open>A sequence of \<open>setRoomMeta\<close> calls on one room.\<close>

definition merge_calls :: "string \<Rightarrow> (string \<times> jsval) list list \<Rightarrow> redis \<Rightarrow> redis" where
  "merge_calls roomId calls r = fold (setRoomMeta roomId) calls r"

text \<open>
  What the store holds for a field after some calls: the string of the value the calls
  leave, or what was there before if they leave none. A value the calls leave for the
  field \<open>k\<close> of a \<open>Partial<RoomMeta>\<close> has the type of \<open>k\<close> and is neither \<open>undefined\<close>
  nor \<open>null\<close>.
\<close>

definition stored_as :: "jsval option \<Rightarrow> string option \<Rightarrow> string option" where
  "stored_as acc before = (case acc of None \<Rightarrow> before | Some v \<Rightarrow> Some (String v))"

definition field_ok :: "string \<Rightarrow> jsval option \<Rightarrow> bool" where
  "field_ok k acc =
     (case acc of None \<Rightarrow> True | Some v \<Rightarrow> partial_meta_entry (k, v) \<and> \<not> undefined_or_null v)"

text \<open>The \<open>join\<close> events of a connection for a room.\<close>

fun is_join_of :: "string \<Rightarrow> string \<Rightarrow> event \<Rightarrow> bool" where
  "is_join_of sid roomId (Join sid' roomId' nick w asset_opt now) = (sid' = sid \<and> roomId' = roomId)"
| "is_join_of sid roomId ev = False"

text \<open>The player map and the drawing map that a \<open>round_end\<close> event carries.\<close>

fun players_of :: "out_event \<Rightarrow> (string \<rightharpoonup> PlayerData)" where
  "players_of (RoundEnd m ps ds) = ps"
| "players_of ev = Map.empty"

fun drawings_of :: "out_event \<Rightarrow> (string \<rightharpoonup> string)" where
  "drawings_of (RoundEnd m ps ds) = ds"
| "drawings_of ev = Map.empty"

section \<open>Conversions: what is written is what is read back\<close>

lemma is_digit_digit_char: "d < 10 \<Longrightarrow> is_digit (digit_char d)"
  by (simp add: is_digit_def digit_char_def)

lemma digit_val_digit_char: "d < 10 \<Longrightarrow> digit_val (digit_char d) = d"
  by (simp add: digit_val_def digit_char_def)

lemma digit_char_not_minus: "d < 10 \<Longrightarrow> digit_char d \<noteq> CHR ''-''"
proof
  assume d: "d < 10" and eq: "digit_char d = CHR ''-''"
  from eq have "(of_char (digit_char d) :: nat) = of_char (CHR ''-'')" by simp
  with d show False by (simp add: digit_char_def)
qed

lemma digits_nonempty: "digits n \<noteq> []"
  by (subst digits.simps) simp

lemma digits_all_digit: "list_all is_digit (digits n)"
proof (induction n rule: digits.induct)
  case (1 n)
  show ?case
  proof (cases "n < 10")
    case True
    then show ?thesis by (subst digits.simps) (simp add: is_digit_digit_char)
  next
    case False
    with 1 show ?thesis by (subst digits.simps) (simp add: is_digit_digit_char)
  qed
qed

lemma decimal_snoc: "decimal (ds @ [c]) = 10 * decimal ds + digit_val c"
  by (simp add: decimal_def)

lemma decimal_digits: "decimal (digits n) = n"
proof (induction n rule: digits.induct)
  case (1 n)
  show ?case
  proof (cases "n < 10")
    case True
    then show ?thesis
      by (subst digits.simps) (simp add: decimal_def digit_val_digit_char)
  next
    case False
    with 1 have "decimal (digits (n div 10)) = n div 10" by simp
    with False show ?thesis
      by (subst digits.simps) (simp add: decimal_snoc digit_val_digit_char)
  qed
qed

lemma hd_digits_not_minus: "hd (digits n) \<noteq> CHR ''-''"
proof (induction n rule: digits.induct)
  case (1 n)
  show ?case
  proof (cases "n < 10")
    case True
    then show ?thesis by (subst digits.simps) (simp add: digit_char_not_minus)
  next
    case False
    with 1 show ?thesis by (subst digits.simps) (simp add: digits_nonempty)
  qed
qed

lemma Number_digits: "Number (digits n) = Fin (int n)"
proof (cases "digits n")
  case Nil
  then show ?thesis by (simp add: digits_nonempty)
next
  case (Cons c ds)
  with hd_digits_not_minus [of n] have "c \<noteq> CHR ''-''" by simp
  moreover from Cons digits_all_digit [of n] have "list_all is_digit (c # ds)" by simp
  moreover from Cons decimal_digits [of n] have "decimal (c # ds) = n" by simp
  ultimately show ?thesis using Cons by (simp add: Number_def)
qed

lemma Number_String_int: "Number (String_int i) = Fin i"
proof (cases "i < 0")
  case True
  then show ?thesis
    by (simp add: String_int_def Number_def digits_nonempty digits_all_digit decimal_digits)
next
  case False
  then show ?thesis by (simp add: String_int_def Number_digits)
qed

lemma String_int_nonempty: "String_int i \<noteq> []"
  by (simp add: String_int_def digits_nonempty)

lemma Number_String_number: "Number (String_number n) = n"
proof (cases n)
  case (Fin i)
  then show ?thesis by (simp add: Number_String_int)
next
  case NaN
  have "\<not> is_digit CHR ''N''" by (simp add: is_digit_def)
  with NaN show ?thesis by (simp add: Number_def)
qed

lemma String_number_nonempty: "String_number n \<noteq> []"
  by (cases n) (simp_all add: String_int_nonempty)

text \<open>The conversions on examples.\<close>

lemma digit_chars:
  "map digit_char [0, Suc 0, 2, 3, 4, 5, 6, 7, 8, 9] = ''0123456789''"
  by code_simp

lemma String_int_example: "String_int 301000 = ''301000'' \<and> String_int (- 42) = ''-42''"
  using digit_chars by (simp add: String_int_def digits.simps)

lemma Number_example:
  "Number ''301000'' = Fin 301000 \<and> Number ''-42'' = Fin (- 42) \<and> Number ''abc'' = NaN"
  by (simp add: Number_def is_digit_def decimal_def digit_val_def)

section \<open>Drawing submission\<close>

text \<open>
  C8. For every \<open>drawing_submit(roomId, drawing)\<close> from a session, the blob is stored
  under the key of (room id, session id), whatever was stored there before, and nothing
  else in the store changes; a second submission leaves the store as if it had been the
  only one, so the pair holds at most one drawing. One \<open>drawing\<close> event with the session
  id and the blob goes to the room, and a sender that is in the room is among its
  recipients.
\<close>

theorem drawing_submit_overwrites_and_broadcasts:
  "graph (store (fst (drawing_submit sid roomId d st))) = (graph (store st))((roomId, sid) \<mapsto> d)
   \<and> meta (store (fst (drawing_submit sid roomId d st))) = meta (store st)
   \<and> player (store (fst (drawing_submit sid roomId d st))) = player (store st)
   \<and> store (fst (drawing_submit sid roomId d2 (fst (drawing_submit sid roomId d st))))
       = store (fst (drawing_submit sid roomId d2 st))
   \<and> snd (drawing_submit sid roomId d st) = [(ToRoom roomId, Drawing sid d)]
   \<and> (roomId \<in> set (rooms st sid)
        \<longrightarrow> sid \<in> recipients (fst (drawing_submit sid roomId d st)) (ToRoom roomId))"
  by (simp add: drawing_submit_def recipients_def)

theorem drawing_submit_witness:
  "''R1'' \<in> set (rooms \<lparr>store = empty_redis, rooms = (\<lambda>s. [s, ''R1'']), timers = []\<rparr> ''s1'')
   \<and> ''s1'' \<in> recipients (fst (drawing_submit ''s1'' ''R1'' ''d''
         \<lparr>store = empty_redis, rooms = (\<lambda>s. [s, ''R1'']), timers = []\<rparr>)) (ToRoom ''R1'')"
  using drawing_submit_overwrites_and_broadcasts
    [of "''s1''" "''R1''" "''d''" "\<lparr>store = empty_redis, rooms = (\<lambda>s. [s, ''R1'']), timers = []\<rparr>"]
  by simp

section \<open>Facts about the store operations\<close>

lemma hgetall_hset_same:
  "hgetall (hset m k kvs) k = fold (\<lambda>(f, v) h. h(f \<mapsto> v)) kvs (hgetall m k)"
  by (simp add: hset_def hgetall_def)

lemma hgetall_hset_other: "k' \<noteq> k \<Longrightarrow> hgetall (hset m k kvs) k' = hgetall m k'"
  by (simp add: hset_def hgetall_def)

lemma roundEnd_parse_update:
  "roundEnd (parseRoomMeta now (h(''roundEnd'' \<mapsto> String_int e))) = Some (Fin e)"
  by (simp add: parseRoomMeta_def Number_String_int String_int_nonempty)

lemma round_running_iff: "0 \<le> now \<Longrightarrow> round_running m now = roundEnd_after m now"
  by (auto simp: round_running_def roundEnd_after_def split: option.splits number.splits)

lemma example_meta_R1:
  "owner (getRoomMeta now (store example_state) ''R1'') = Some ''W1''
   \<and> roundEnd (getRoomMeta now (store example_state) ''R1'') = Some (Fin 301000)"
  by (simp add: example_state_def example_redis_def getRoomMeta_def hgetall_def parseRoomMeta_def
      Number_String_int String_int_nonempty)

section \<open>Starting a round\<close>

lemma start_round_unauthorized:
  "w \<noteq> js_of_option (owner (getRoomMeta now (store st) roomId)) \<Longrightarrow>
   start_round sid roomId w now st =
     (st, [(ToSocket sid, StartRoundError ''Only room owner can start round.'')])"
  by (simp add: start_round_def getRoomMeta_def)

lemma start_round_running:
  "w = js_of_option (owner (getRoomMeta now (store st) roomId)) \<Longrightarrow>
   round_running (getRoomMeta now (store st) roomId) now \<Longrightarrow>
   start_round sid roomId w now st =
     (st, [(ToSocket sid, StartRoundError ''Round already started.'')])"
  by (simp add: start_round_def getRoomMeta_def)

lemma start_round_success:
  assumes "w = js_of_option (owner (getRoomMeta now (store st) roomId))"
    and "\<not> round_running (getRoomMeta now (store st) roomId) now"
    and "0 \<le> now"
  shows "start_round sid roomId w now st =
     (st\<lparr>store := (store st)\<lparr>meta := (meta (store st))(roomId \<mapsto>
              (hgetall (meta (store st)) roomId)(''roundEnd'' \<mapsto> String_int (now + 300000)))\<rparr>,
         timers := timers st @ [(roomId, now + 300000, 1000)]\<rparr>,
      [(ToRoom roomId,
        RoundStarted (Fin (now + 300000)) (owner (getRoomMeta now (store st) roomId)))])"
  using assms
  by (simp add: start_round_def getRoomMeta_def Let_def setRoomMeta_def startTimer_def
      hset_def hgetall_def roundEnd_parse_update)

text \<open>
  C3. At a clock reading \<open>now\<close> that is not negative, \<open>start_round(roomId, wallet)\<close>
  answers with a \<open>start_round_error\<close> exactly when the wallet differs from the stored
  owner or the stored \<open>roundEnd\<close> is greater than \<open>now\<close>. A differing wallet always gets
  "Only room owner can start round."; the owner's wallet during a running round gets
  "Round already started.". In both cases the state, the store included, is the one
  before the call, and the error event is addressed to the caller's connection, whose
  only recipient is the caller. Otherwise the only event is \<open>round_started\<close>.
\<close>

theorem start_round_fails_iff:
  assumes "0 \<le> now"
  shows "let m = getRoomMeta now (store st) roomId;
             unauthorized = (w \<noteq> js_of_option (owner m));
             running = roundEnd_after m now;
             res = start_round sid roomId w now st
         in ((\<exists>err. snd res = [(ToSocket sid, StartRoundError err)]) = (unauthorized \<or> running))
          \<and> (unauthorized \<longrightarrow>
                res = (st, [(ToSocket sid, StartRoundError ''Only room owner can start round.'')]))
          \<and> (\<not> unauthorized \<and> running \<longrightarrow>
                res = (st, [(ToSocket sid, StartRoundError ''Round already started.'')]))
          \<and> (\<not> unauthorized \<and> \<not> running \<longrightarrow>
                snd res = [(ToRoom roomId, RoundStarted (Fin (now + 300000)) (owner m))])
          \<and> recipients st (ToSocket sid) = {sid}"
proof -
  let ?m = "getRoomMeta now (store st) roomId"
  have rr: "round_running ?m now = roundEnd_after ?m now"
    using assms by (rule round_running_iff)
  show ?thesis
  proof (cases "w \<noteq> js_of_option (owner ?m)")
    case True
    then show ?thesis
      by (simp add: start_round_unauthorized Let_def recipients_def)
  next
    case owner: False
    show ?thesis
    proof (cases "roundEnd_after ?m now")
      case True
      with owner rr show ?thesis
        by (simp add: start_round_running Let_def recipients_def)
    next
      case False
      with owner rr assms show ?thesis
        by (simp add: start_round_success Let_def recipients_def)
    qed
  qed
qed

theorem start_round_fails_iff_witness:
  "(0::int) \<le> 1000
   \<and> JStr ''W2'' \<noteq> js_of_option (owner (getRoomMeta 1000 (store example_state) ''R1''))
   \<and> start_round ''s2'' ''R1'' (JStr ''W2'') 1000 example_state
       = (example_state, [(ToSocket ''s2'', StartRoundError ''Only room owner can start round.'')])
   \<and> JStr ''W1'' = js_of_option (owner (getRoomMeta 1000 (store example_state) ''R1''))
   \<and> roundEnd_after (getRoomMeta 1000 (store example_state) ''R1'') 1000
   \<and> start_round ''s1'' ''R1'' (JStr ''W1'') 1000 example_state
       = (example_state, [(ToSocket ''s1'', StartRoundError ''Round already started.'')])
   \<and> \<not> roundEnd_after (getRoomMeta 400000 (store example_state) ''R1'') 400000
   \<and> snd (start_round ''s1'' ''R1'' (JStr ''W1'') 400000 example_state)
       = [(ToRoom ''R1'', RoundStarted (Fin 700000) (Some ''W1''))]"
  using start_round_fails_iff [of 1000 example_state "''R1''" "JStr ''W2''" "''s2''"]
    start_round_fails_iff [of 1000 example_state "''R1''" "JStr ''W1''" "''s1''"]
    start_round_fails_iff [of 400000 example_state "''R1''" "JStr ''W1''" "''s1''"]
  by (simp add: example_meta_R1 Let_def js_of_option_def roundEnd_after_def)

text \<open>
  C4. When \<open>start_round(roomId, wallet)\<close> succeeds at the clock reading \<open>now\<close> (the wallet
  is the stored owner and the stored \<open>roundEnd\<close> is not greater than \<open>now\<close>), the field
  \<open>roundEnd\<close> of the room's meta is written as \<open>now + 300000\<close>, whatever the room or the
  payload, and reads back as that number; the rest of the store is as before. One
  \<open>round_started\<close> event with that \<open>roundEnd\<close> and the owner goes to the room, and one
  interval with period 1000 ms is added for the room, its callback holding that \<open>roundEnd\<close>.
\<close>

theorem start_round_success_effects:
  assumes "0 \<le> now"
    and "w = js_of_option (owner (getRoomMeta now (store st) roomId))"
    and "\<not> roundEnd_after (getRoomMeta now (store st) roomId) now"
  shows "let st' = fst (start_round sid roomId w now st) in
           hgetall (meta (store st')) roomId
             = (hgetall (meta (store st)) roomId)(''roundEnd'' \<mapsto> String_int (now + 300000))
         \<and> roundEnd (getRoomMeta t (store st') roomId) = Some (Fin (now + 300000))
         \<and> (\<forall>r'. r' \<noteq> roomId \<longrightarrow> meta (store st') r' = meta (store st) r')
         \<and> player (store st') = player (store st)
         \<and> graph (store st') = graph (store st)
         \<and> rooms st' = rooms st
         \<and> snd (start_round sid roomId w now st)
             = [(ToRoom roomId,
                 RoundStarted (Fin (now + 300000)) (owner (getRoomMeta now (store st) roomId)))]
         \<and> timers st' = timers st @ [(roomId, now + 300000, 1000)]"
proof -
  from assms have "\<not> round_running (getRoomMeta now (store st) roomId) now"
    by (simp add: round_running_iff)
  with assms show ?thesis
    by (simp add: start_round_success Let_def getRoomMeta_def hgetall_def roundEnd_parse_update)
qed

theorem start_round_success_witness:
  "(0::int) \<le> 400000
   \<and> JStr ''W1'' = js_of_option (owner (getRoomMeta 400000 (store example_state) ''R1''))
   \<and> \<not> roundEnd_after (getRoomMeta 400000 (store example_state) ''R1'') 400000
   \<and> roundEnd (getRoomMeta 0
        (store (fst (start_round ''s1'' ''R1'' (JStr ''W1'') 400000 example_state))) ''R1'')
       = Some (Fin 700000)
   \<and> timers (fst (start_round ''s1'' ''R1'' (JStr ''W1'') 400000 example_state))
       = [(''R1'', 700000, 1000)]"
proof -
  have h1: "(0::int) \<le> 400000" by simp
  have h2: "JStr ''W1'' = js_of_option (owner (getRoomMeta 400000 (store example_state) ''R1''))"
    by (simp add: example_meta_R1 js_of_option_def)
  have h3: "\<not> roundEnd_after (getRoomMeta 400000 (store example_state) ''R1'') 400000"
    by (simp add: example_meta_R1 roundEnd_after_def)
  have tm: "timers example_state = []"
    by (simp add: example_state_def)
  from start_round_success_effects [OF h1 h2 h3, of "''s1''" 0] h1 h2 h3 tm
  show ?thesis by (simp add: Let_def)
qed

section \<open>The round end over runs of events\<close>

lemma fold_upd_other:
  "k \<notin> fst ` set kvs \<Longrightarrow> fold (\<lambda>(f, v) h. h(f \<mapsto> v)) kvs h k = h k"
  by (induction kvs arbitrary: h) auto

lemma fieldsToSet_keys: "fst ` set (fieldsToSet partial) \<subseteq> fst ` set partial"
  by (induction partial rule: fieldsToSet.induct) auto

lemma setRoomMeta_field_other:
  "k \<notin> fst ` set (fieldsToSet partial) \<Longrightarrow>
   hgetall (meta (setRoomMeta roomId partial r)) r' k = hgetall (meta r) r' k"
  by (cases "r' = roomId")
     (simp_all add: setRoomMeta_def hgetall_hset_same hgetall_hset_other fold_upd_other)

lemma setRoomMeta_player: "player (setRoomMeta roomId partial r) = player r"
  by (simp add: setRoomMeta_def)

lemma setPlayer_meta: "meta (setPlayer roomId sid partial r) = meta r"
  by (simp add: setPlayer_def)



lemma create_lobby_room_roundEnd:
  "stored_roundEnd (fst (create_lobby_room sid entryFee w nick roomId now st)) r = stored_roundEnd st r"
proof -
  have "''roundEnd'' \<notin> fst ` set (fieldsToSet [(''fee'', entryFee), (''createdAt'', JNum (Fin now)),
                    (''roundEnd'', Null), (''owner'', w)])"
    by simp
  then show ?thesis
    by (simp add: create_lobby_room_def stored_roundEnd_def Let_def setPlayer_meta
        setRoomMeta_field_other)
qed





lemma start_round_success_roundEnd:
  assumes "w = js_of_option (owner (getRoomMeta now (store st) roomId))"
    and "\<not> round_running (getRoomMeta now (store st) roomId) now"
    and "0 \<le> now"
  shows "roundEnd (getRoomMeta t (store (fst (start_round sid roomId w now st))) roomId)
         = Some (Fin (now + 300000))"
  by (simp add: start_round_success [OF assms] getRoomMeta_def hgetall_def roundEnd_parse_update)

lemma roundEnd_of_stored:
  "roundEnd (getRoomMeta t (store st) r)
   = (case stored_roundEnd st r of
        None \<Rightarrow> None
      | Some v \<Rightarrow> if v \<noteq> [] then Some (Number v) else None)"
  by (simp add: getRoomMeta_def parseRoomMeta_def stored_roundEnd_def)





lemma example_stored_roundEnd: "stored_roundEnd example_state ''R1'' = Some (String_int 301000)"
  by (simp add: stored_roundEnd_def example_state_def example_redis_def hgetall_def)


section \<open>Disconnecting\<close>

text \<open>
  What the loop of the handler does for a room it visits, and that it visits the ids
  with the prefix \<open>room:\<close> only: for such a room the player record and the drawing of
  the connection are gone afterwards; the records of any other room are as before.
\<close>

lemma disconnect_loop_gone:
  "player r (room, sid) = None \<and> graph r (room, sid) = None \<Longrightarrow>
   player (fst (disconnect_loop sid now rs r)) (room, sid) = None
   \<and> graph (fst (disconnect_loop sid now rs r)) (room, sid) = None"
  by (induction rs arbitrary: r) (simp_all add: Let_def case_prod_beta del_def)

lemma disconnect_loop_cleans:
  "room \<in> set rs \<Longrightarrow>
   player (fst (disconnect_loop sid now rs r)) (room, sid) = None
   \<and> graph (fst (disconnect_loop sid now rs r)) (room, sid) = None"
proof (induction rs arbitrary: r)
  case Nil
  then show ?case by simp
next
  case (Cons a rs)
  show ?case
  proof (cases "room = a")
    case True
    let ?r2 = "r\<lparr>player := del (player r) (a, sid), graph := del (graph r) (a, sid)\<rparr>"
    have "player ?r2 (room, sid) = None \<and> graph ?r2 (room, sid) = None"
      using True by (simp add: del_def)
    from disconnect_loop_gone [OF this, of now rs] show ?thesis
      by (simp add: Let_def case_prod_beta)
  next
    case False
    with Cons show ?thesis by (simp add: Let_def case_prod_beta)
  qed
qed

lemma disconnect_cleans_prefixed_room:
  "room \<in> set socket_rooms \<Longrightarrow> startsWith room ''room:'' \<Longrightarrow>
   player (fst (disconnect sid socket_rooms now r)) (room, sid) = None
   \<and> graph (fst (disconnect sid socket_rooms now r)) (room, sid) = None"
  by (simp add: disconnect_def disconnect_loop_cleans)

lemma disconnect_loop_other:
  "room \<notin> set rs \<Longrightarrow>
   player (fst (disconnect_loop sid now rs r)) (room, s) = player r (room, s)
   \<and> graph (fst (disconnect_loop sid now rs r)) (room, s) = graph r (room, s)"
  by (induction rs arbitrary: r) (simp_all add: Let_def case_prod_beta del_def)

lemma disconnect_skips_unprefixed_room:
  "\<not> startsWith room ''room:'' \<Longrightarrow>
   player (fst (disconnect sid socket_rooms now r)) (room, s) = player r (room, s)
   \<and> graph (fst (disconnect sid socket_rooms now r)) (room, s) = graph r (room, s)"
  by (simp add: disconnect_def disconnect_loop_other)

text \<open>
  C1, at a concrete input. Connection \<open>s2\<close> joins room \<open>R1\<close> and submits a drawing, so
  that \<open>socket.rooms\<close> holds its own id and \<open>R1\<close>, and then disconnects. The handler
  keeps the ids that start with \<open>room:\<close>, which \<open>R1\<close> does not: the player record and
  the drawing of \<open>s2\<close> in \<open>R1\<close> are still in the store afterwards, and no \<open>users\<close>
  event is sent.
\<close>

theorem disconnect_skips_joined_room:
  "let st1 = run [Join ''s2'' ''R1'' ''bob'' ''W2'' None 1000,
                  DrawingSubmit ''s2'' ''R1'' ''sketch''] init_state;
       res = step (Disconnect ''s2'' 2000) st1
   in rooms st1 ''s2'' = [''s2'', ''R1'']
    \<and> player (store st1) (''R1'', ''s2'')
        = Some [''nickname'' \<mapsto> ''bob'', ''wallet'' \<mapsto> ''W2'', ''joinedAt'' \<mapsto> String_int 1000]
    \<and> graph (store st1) (''R1'', ''s2'') = Some ''sketch''
    \<and> player (store (fst res)) (''R1'', ''s2'') = player (store st1) (''R1'', ''s2'')
    \<and> graph (store (fst res)) (''R1'', ''s2'') = graph (store st1) (''R1'', ''s2'')
    \<and> snd res = []"
  by (simp add: Let_def init_state_def empty_redis_def join_def socket_join_def setRoomMeta_def
      js_of_option_def hset_def hgetall_def drawing_submit_def disconnect_def startsWith_def)

section \<open>The round timer\<close>

lemma timeLeft_floor:
  "max 0 ((e - now) div 1000) = max 0 \<lfloor>real_of_int (e - now) / 1000\<rfloor>"
proof -
  have "\<lfloor>real_of_int (e - now) / real_of_int 1000\<rfloor> = (e - now) div 1000"
    by (rule floor_divide_of_int_eq)
  then show ?thesis by simp
qed

lemma timer_tick_running:
  "0 < (e - now) div 1000 \<Longrightarrow>
   timer_tick roomId e now r = ([(ToRoom roomId, Timer (max 0 ((e - now) div 1000)))], False)"
  by (simp add: timer_tick_def Let_def)

lemma timer_tick_final:
  "(e - now) div 1000 \<le> 0 \<Longrightarrow>
   timer_tick roomId e now r =
     ([(ToRoom roomId, Timer 0),
       (ToRoom roomId,
        RoundEnd (parseRoomMeta now (hgetall (meta r) roomId))
                 (getAllPlayers now r roomId) (getAllDrawings r roomId))], True)"
  by (simp add: timer_tick_def Let_def)

text \<open>In a run of the coordinator, the callback that sends 0 removes its interval.\<close>

lemma tick_clears_interval:
  assumes "i < length (timers st)" and "timers st ! i = (roomId, e, period)"
    and "(e - now) div 1000 \<le> 0"
  shows "timers (fst (step (Tick i now) st)) = take i (timers st) @ drop (Suc i) (timers st)"
  using assms by (simp add: timer_tick_final)

lemma tick_keeps_interval:
  assumes "i < length (timers st)" and "timers st ! i = (roomId, e, period)"
    and "0 < (e - now) div 1000"
  shows "fst (step (Tick i now) st) = st"
  using assms by (simp add: timer_tick_running)

lemma clock_advances:
  assumes "\<forall>k. t k < t (Suc k)"
  shows "t 0 + int k \<le> t k"
proof (induction k)
  case 0
  show ?case by simp
next
  case (Suc k)
  from assms have "t k < t (Suc k)" by blast
  with Suc show ?case by simp
qed

lemma clock_mono:
  fixes t :: "nat \<Rightarrow> int"
  assumes "\<forall>k. t k < t (Suc k)"
  shows "i \<le> j \<Longrightarrow> t i \<le> t j"
proof (induction j)
  case 0
  then show ?case by simp
next
  case (Suc j)
  from assms have "t j < t (Suc j)" by blast
  with Suc show ?case by (cases "i = Suc j") auto
qed

lemma reaches_zero:
  fixes t :: "nat \<Rightarrow> int"
  assumes "\<forall>k. t k < t (Suc k)"
  shows "\<exists>k. (e - t k) div 1000 \<le> 0"
proof -
  have "e \<le> t (nat (e - t 0))"
  proof (cases "t 0 \<le> e")
    case True
    with clock_advances [OF assms, of "nat (e - t 0)"] show ?thesis by simp
  next
    case False
    then show ?thesis by simp
  qed
  then have "(e - t (nat (e - t 0))) div 1000 \<le> 0"
    by (simp add: div_nonpos_pos_le0)
  then show ?thesis ..
qed

lemma timer_run_from:
  assumes before: "\<forall>k<k0. 0 < (e - t k) div 1000"
    and final: "(e - t k0) div 1000 \<le> 0"
  shows "i \<le> k0 \<Longrightarrow> k0 < m \<Longrightarrow>
     timer_run roomId e (map (\<lambda>k. (t k, rs k)) [i..<m])
     = map (\<lambda>k. (ToRoom roomId, Timer (max 0 ((e - t k) div 1000)))) [i..<k0]
       @ [(ToRoom roomId, Timer 0),
          (ToRoom roomId,
           RoundEnd (parseRoomMeta (t k0) (hgetall (meta (rs k0)) roomId))
                    (getAllPlayers (t k0) (rs k0) roomId) (getAllDrawings (rs k0) roomId))]"
proof (induction "k0 - i" arbitrary: i)
  case 0
  then have i: "i = k0" by simp
  with 0 have "[i..<m] = k0 # [Suc k0..<m]" by (simp add: upt_conv_Cons)
  with i final show ?case by (simp add: timer_tick_final)
next
  case (Suc d)
  then have lt: "i < k0" by simp
  with Suc.prems have "[i..<m] = i # [Suc i..<m]" by (simp add: upt_conv_Cons)
  moreover from lt have "[i..<k0] = i # [Suc i..<k0]" by (simp add: upt_conv_Cons)
  moreover from before lt have "0 < (e - t i) div 1000" by blast
  moreover from Suc have "timer_run roomId e (map (\<lambda>k. (t k, rs k)) [Suc i..<m])
     = map (\<lambda>k. (ToRoom roomId, Timer (max 0 ((e - t k) div 1000)))) [Suc i..<k0]
       @ [(ToRoom roomId, Timer 0),
          (ToRoom roomId,
           RoundEnd (parseRoomMeta (t k0) (hgetall (meta (rs k0)) roomId))
                    (getAllPlayers (t k0) (rs k0) roomId) (getAllDrawings (rs k0) roomId))]"
    by simp
  ultimately show ?case by (simp add: timer_tick_running)
qed

lemma timer_values_ticks:
  "timer_values (map (\<lambda>k. (tg, Timer (f k))) ks @ out) = map f ks @ timer_values out"
  by (induction ks) simp_all

lemma round_end_ticks:
  "filter is_round_end (map (\<lambda>k. (tg, Timer (f k))) ks @ out) = filter is_round_end out"
  by (induction ks) simp_all



lemma antitone_sorted:
  assumes "\<And>i j. i \<le> j \<Longrightarrow> f j \<le> (f i :: int)"
  shows "sorted_wrt (\<lambda>a b. b \<le> a) (map f [i0..<n])"
proof -
  have "sorted_wrt (<) [i0..<n]" by simp
  then have "sorted_wrt (\<lambda>x y. f y \<le> f x) [i0..<n]"
    by (rule sorted_wrt_mono_rel [rotated]) (simp add: assms)
  then show ?thesis by (simp add: sorted_wrt_map)
qed


text \<open>
  What the two bulk reads return, against the store: one entry for every player record
  of the room, parsed with the defaults of \<open>parsePlayerData\<close>, and one entry for every
  drawing of the room that is not the empty string.
\<close>

lemma getAllPlayers_store:
  "getAllPlayers now r roomId s
   = (case player r (roomId, s) of
        None \<Rightarrow> None
      | Some h \<Rightarrow>
          Some \<lparr>nickname = (case h ''nickname'' of None \<Rightarrow> [] | Some v \<Rightarrow> v),
                wallet = (case h ''wallet'' of None \<Rightarrow> [] | Some v \<Rightarrow> v),
                joinedAt = (case h ''joinedAt'' of
                              None \<Rightarrow> Fin now
                            | Some v \<Rightarrow> if v \<noteq> [] then Number v else Fin now)\<rparr>)"
  by (simp add: getAllPlayers_def parsePlayerData_def split: option.splits)

lemma dom_getAllPlayers: "dom (getAllPlayers now r roomId) = {s. player r (roomId, s) \<noteq> None}"
  by (auto simp: getAllPlayers_def split: option.splits)

lemma getAllDrawings_store:
  "getAllDrawings r roomId s
   = (case graph r (roomId, s) of None \<Rightarrow> None | Some b \<Rightarrow> if b \<noteq> [] then Some b else None)"
  by (simp add: getAllDrawings_def)

lemma getAllDrawings_Some:
  "(getAllDrawings r roomId s = Some b) = (graph r (roomId, s) = Some b \<and> b \<noteq> [])"
  by (auto simp: getAllDrawings_def split: option.splits)

text \<open>
  C5, as amended. A tick at the clock reading \<open>now\<close> first sends
  \<open>timeLeft = max(0, floor((roundEnd - now) / 1000))\<close> to the room. Let the callbacks of
  an interval fire at clock readings that increase from one callback to the next, each
  finding the store as it is then. Then after some number \<open>n\<close> of callbacks the interval
  has stopped for good (more callbacks of the schedule add nothing), and what it has sent
  is: the \<open>timer\<close> values of the first \<open>n\<close> readings, which never increase, are positive
  before the last and end with 0; and one \<open>round_end\<close> event, sent last. With the store
  \<open>r\<close> as it is at the final callback, that event holds the parsed meta hash of the room,
  one parsed entry for every player record that \<open>r\<close> has for the room, and the drawing of
  every session whose stored drawing for the room is not the empty string; a stored empty
  drawing is left out. Every event goes to the room.
\<close>

theorem timer_counts_down_and_ends_once:
  fixes t :: "nat \<Rightarrow> int"
  assumes adv: "\<forall>k. t k < t (Suc k)"
  shows "hd (fst (timer_tick roomId e now r))
           = (ToRoom roomId, Timer (max 0 \<lfloor>real_of_int (e - now) / 1000\<rfloor>))
       \<and> (\<exists>n>0. let out = timer_run roomId e (schedule t rs n);
                    final = (ToRoom roomId,
                       RoundEnd
                         (parseRoomMeta (t (n - 1))
                            (case meta (rs (n - 1)) roomId of None \<Rightarrow> Map.empty | Some h \<Rightarrow> h))
                         (\<lambda>s. case player (rs (n - 1)) (roomId, s) of
                                None \<Rightarrow> None
                              | Some h \<Rightarrow>
                                  Some \<lparr>nickname = (case h ''nickname'' of None \<Rightarrow> [] | Some v \<Rightarrow> v),
                                        wallet = (case h ''wallet'' of None \<Rightarrow> [] | Some v \<Rightarrow> v),
                                        joinedAt =
                                          (case h ''joinedAt'' of
                                             None \<Rightarrow> Fin (t (n - 1))
                                           | Some v \<Rightarrow>
                                               if v \<noteq> [] then Number v else Fin (t (n - 1)))\<rparr>)
                         (\<lambda>s. case graph (rs (n - 1)) (roomId, s) of
                                None \<Rightarrow> None
                              | Some b \<Rightarrow> if b \<noteq> [] then Some b else None))
                in timer_values out = map (\<lambda>k. max 0 ((e - t k) div 1000)) [0..<n]
                 \<and> sorted_wrt (\<lambda>a b. b \<le> a) (timer_values out)
                 \<and> last (timer_values out) = 0
                 \<and> list_all (\<lambda>v. 0 < v) (butlast (timer_values out))
                 \<and> filter is_round_end out = [final]
                 \<and> last out = final
                 \<and> list_all (\<lambda>em. fst em = ToRoom roomId) out
                 \<and> (\<forall>m\<ge>n. timer_run roomId e (schedule t rs m) = out))"
    (is "?tick \<and> ?run")
proof
  have "hd (fst (timer_tick roomId e now r)) = (ToRoom roomId, Timer (max 0 ((e - now) div 1000)))"
    by (simp add: timer_tick_def Let_def)
  then show ?tick
    by (simp only: timeLeft_floor)
next
  define k0 where "k0 = (LEAST k. (e - t k) div 1000 \<le> 0)"
  define f where "f = (\<lambda>k. max 0 ((e - t k) div 1000))"
  define final where "final = (ToRoom roomId,
      RoundEnd
        (parseRoomMeta (t k0) (case meta (rs k0) roomId of None \<Rightarrow> Map.empty | Some h \<Rightarrow> h))
        (\<lambda>s. case player (rs k0) (roomId, s) of
               None \<Rightarrow> None
             | Some h \<Rightarrow>
                 Some \<lparr>nickname = (case h ''nickname'' of None \<Rightarrow> [] | Some v \<Rightarrow> v),
                       wallet = (case h ''wallet'' of None \<Rightarrow> [] | Some v \<Rightarrow> v),
                       joinedAt =
                         (case h ''joinedAt'' of
                            None \<Rightarrow> Fin (t k0)
                          | Some v \<Rightarrow> if v \<noteq> [] then Number v else Fin (t k0))\<rparr>)
        (\<lambda>s. case graph (rs k0) (roomId, s) of
               None \<Rightarrow> None
             | Some b \<Rightarrow> if b \<noteq> [] then Some b else None))"
  have final_read: "(ToRoom roomId,
      RoundEnd (parseRoomMeta (t k0) (hgetall (meta (rs k0)) roomId))
        (getAllPlayers (t k0) (rs k0) roomId) (getAllDrawings (rs k0) roomId)) = final"
    by (simp add: final_def hgetall_def getAllDrawings_def getAllPlayers_store fun_eq_iff)
  from reaches_zero [OF adv, of e] have fin: "(e - t k0) div 1000 \<le> 0"
    unfolding k0_def by (rule LeastI_ex)
  have before: "\<forall>k<k0. 0 < (e - t k) div 1000"
  proof (intro allI impI)
    fix k assume "k < k0"
    then have "\<not> (e - t k) div 1000 \<le> 0"
      unfolding k0_def by (rule not_less_Least)
    then show "0 < (e - t k) div 1000" by simp
  qed
  have run: "timer_run roomId e (schedule t rs m)
      = map (\<lambda>k. (ToRoom roomId, Timer (f k))) [0..<k0] @ [(ToRoom roomId, Timer 0), final]"
    if "k0 < m" for m
    using timer_run_from [OF before fin, of 0 m roomId rs] that
    by (simp only: schedule_def f_def final_read)
  have f0: "f k0 = 0" using fin by (simp add: f_def)
  have anti: "f j \<le> f i" if "i \<le> j" for i j
  proof -
    from clock_mono [OF adv that] have "e - t j \<le> e - t i" by simp
    then have "(e - t j) div 1000 \<le> (e - t i) div 1000" by (rule zdiv_mono1) simp
    then show ?thesis by (simp add: f_def)
  qed
  let ?out = "timer_run roomId e (schedule t rs (Suc k0))"
  have out: "?out = map (\<lambda>k. (ToRoom roomId, Timer (f k))) [0..<k0] @ [(ToRoom roomId, Timer 0), final]"
    by (rule run) simp
  have vals: "timer_values ?out = map f [0..<Suc k0]"
    by (simp add: out timer_values_ticks final_def f0)
  have sorted: "sorted_wrt (\<lambda>a b. b \<le> a) (timer_values ?out)"
    unfolding vals by (rule antitone_sorted) (rule anti)
  have lastv: "last (timer_values ?out) = 0"
    by (simp add: vals f0)
  have pos: "list_all (\<lambda>v. 0 < v) (butlast (timer_values ?out))"
    using before by (simp add: vals list_all_iff f_def)
  have once: "filter is_round_end ?out = [final]"
    by (simp add: out round_end_ticks final_def)
  have lasto: "last ?out = final"
    by (simp add: out)
  have tg: "list_all (\<lambda>em. fst em = ToRoom roomId) ?out"
    by (simp add: out list_all_iff final_def)
  have stop: "\<forall>m\<ge>Suc k0. timer_run roomId e (schedule t rs m) = ?out"
    by (simp add: run out)
  show ?run
    unfolding Let_def
    apply (rule exI [of _ "Suc k0"])
    unfolding diff_Suc_1
    using vals sorted lastv pos once lasto tg stop
    unfolding f_def final_def
    by (intro conjI) (assumption | rule zero_less_Suc)+
qed

text \<open>
  C5 as stated, with the full drawing map of the store in the \<open>round_end\<close> event, fails
  on an empty drawing: connection \<open>s1\<close> joins \<open>R1\<close> and submits the empty string. The
  store holds that drawing, and the \<open>round_end\<close> event of the final tick has no drawing
  for \<open>s1\<close>.
\<close>

theorem round_end_drops_empty_drawing:
  "let r = store (run [Join ''s1'' ''R1'' ''alice'' ''W1'' None 1000,
                       DrawingSubmit ''s1'' ''R1'' []] init_state);
       out = timer_run ''R1'' 2500 [(2000, r)]
   in graph r (''R1'', ''s1'') = Some []
    \<and> map fst out = [ToRoom ''R1'', ToRoom ''R1'']
    \<and> timer_values out = [0]
    \<and> filter is_round_end out = [last out]
    \<and> drawings_of (snd (last out)) ''s1'' = None
    \<and> dom (players_of (snd (last out))) = {''s1''}"
  by (simp add: Let_def init_state_def empty_redis_def join_def socket_join_def setRoomMeta_def
      js_of_option_def hset_def hgetall_def drawing_submit_def timer_tick_def
      getAllDrawings_def dom_getAllPlayers)

theorem timer_counts_down_witness:
  "(\<forall>k. 1000 * (int k + 1) < 1000 * (int (Suc k) + 1))
   \<and> (\<exists>n>0. timer_values (timer_run ''R1'' 2500
                 (schedule (\<lambda>k. 1000 * (int k + 1)) (\<lambda>k. example_redis) n))
               = map (\<lambda>k. max 0 ((2500 - 1000 * (int k + 1)) div 1000)) [0..<n]
            \<and> last (timer_values (timer_run ''R1'' 2500
                 (schedule (\<lambda>k. 1000 * (int k + 1)) (\<lambda>k. example_redis) n))) = 0)"
proof -
  have adv: "\<forall>k. (\<lambda>k. 1000 * (int k + 1)) k < (\<lambda>k. 1000 * (int k + 1)) (Suc k)"
    by simp
  from timer_counts_down_and_ends_once [OF adv, of "''R1''" 2500 0 example_redis "\<lambda>k. example_redis"]
  obtain n where "0 < n"
    and "timer_values (timer_run ''R1'' 2500
           (schedule (\<lambda>k. 1000 * (int k + 1)) (\<lambda>k. example_redis) n))
         = map (\<lambda>k. max 0 ((2500 - 1000 * (int k + 1)) div 1000)) [0..<n]"
    and "last (timer_values (timer_run ''R1'' 2500
           (schedule (\<lambda>k. 1000 * (int k + 1)) (\<lambda>k. example_redis) n))) = 0"
    unfolding Let_def by blast
  with adv show ?thesis by blast
qed

text \<open>
  The same interval, callback by callback: with \<open>roundEnd = 2500\<close> and callbacks at 1000,
  2000 and 3000 it sends 1, then 0 and the round end, and the third callback never runs.
\<close>

lemma timer_run_example:
  "timer_run ''R1'' 2500 (schedule (\<lambda>k. 1000 * (int k + 1)) (\<lambda>k. example_redis) 3)
   = [(ToRoom ''R1'', Timer 1), (ToRoom ''R1'', Timer 0),
      (ToRoom ''R1'',
       RoundEnd (parseRoomMeta 2000 (hgetall (meta example_redis) ''R1''))
         (getAllPlayers 2000 example_redis ''R1'') (getAllDrawings example_redis ''R1''))]"
  by (simp add: schedule_def upt_conv_Cons timer_tick_def Let_def)

section \<open>Merging and reading room meta\<close>

lemma fold_fieldsToSet:
  "h k = stored_as acc before \<Longrightarrow>
   fold (\<lambda>(f, v) h. h(f \<mapsto> v)) (fieldsToSet partial) h k
   = stored_as (last_supplied undefined_or_null k partial acc) before"
proof (induction partial arbitrary: h acc)
  case Nil
  then show ?case by simp
next
  case (Cons entry partial)
  obtain k' v where entry: "entry = (k', v)" by (cases entry)
  show ?case
  proof (cases "v \<noteq> Undefined \<and> v \<noteq> Null")
    case True
    have "(h(k' \<mapsto> String v)) k
        = stored_as (if k' = k \<and> \<not> undefined_or_null v then Some v else acc) before"
      using True Cons.prems by (simp add: stored_as_def undefined_or_null_def)
    from Cons.IH [of "h(k' \<mapsto> String v)" "if k' = k \<and> \<not> undefined_or_null v then Some v else acc"]
      this True entry show ?thesis
      by simp
  next
    case False
    then have "undefined_or_null v" by (simp add: undefined_or_null_def)
    with Cons.IH [of h acc] Cons.prems False entry show ?thesis by auto
  qed
qed

lemma hgetall_setRoomMeta:
  "hgetall (meta (setRoomMeta roomId partial r)) roomId
   = fold (\<lambda>(f, v) h. h(f \<mapsto> v)) (fieldsToSet partial) (hgetall (meta r) roomId)"
  by (simp add: setRoomMeta_def hgetall_hset_same)

lemma hgetall_merge_calls:
  "hgetall (meta r) roomId k = stored_as acc before \<Longrightarrow>
   hgetall (meta (merge_calls roomId calls r)) roomId k
   = stored_as (fold (last_supplied undefined_or_null k) calls acc) before"
proof (induction calls arbitrary: r acc)
  case Nil
  then show ?case by (simp add: merge_calls_def)
next
  case (Cons partial calls)
  have "hgetall (meta (setRoomMeta roomId partial r)) roomId k
      = stored_as (last_supplied undefined_or_null k partial acc) before"
    using fold_fieldsToSet [of "hgetall (meta r) roomId" k acc before partial] Cons.prems
    by (simp add: hgetall_setRoomMeta)
  from Cons.IH [of "setRoomMeta roomId partial r" "last_supplied undefined_or_null k partial acc"] this
  show ?case by (simp add: merge_calls_def)
qed

lemma stored_fresh:
  "meta r roomId = None \<Longrightarrow>
   hgetall (meta (merge_calls roomId calls r)) roomId k
   = map_option String (union_of_calls undefined_or_null calls k)"
proof -
  assume "meta r roomId = None"
  then have "hgetall (meta r) roomId k = stored_as None None"
    by (simp add: hgetall_def stored_as_def)
  from hgetall_merge_calls [of r roomId k None None calls] this
  show ?thesis by (simp add: union_of_calls_def stored_as_def split: option.splits)
qed


lemma last_supplied_ok:
  "list_all partial_meta_entry partial \<Longrightarrow> field_ok k acc \<Longrightarrow>
   field_ok k (last_supplied undefined_or_null k partial acc)"
proof (induction partial arbitrary: acc)
  case Nil
  then show ?case by simp
next
  case (Cons entry partial)
  obtain k' v where entry: "entry = (k', v)" by (cases entry)
  with Cons.prems have "field_ok k (if k' = k \<and> \<not> undefined_or_null v then Some v else acc)"
    by (auto simp: field_ok_def)
  with Cons.IH [of "if k' = k \<and> \<not> undefined_or_null v then Some v else acc"] Cons.prems entry
  show ?case by simp
qed

lemma union_ok:
  "list_all partial_meta calls \<Longrightarrow> field_ok k acc \<Longrightarrow>
   field_ok k (fold (last_supplied undefined_or_null k) calls acc)"
proof (induction calls arbitrary: acc)
  case Nil
  then show ?case by simp
next
  case (Cons partial calls)
  then show ?case by (simp add: partial_meta_def last_supplied_ok)
qed

lemma union_of_calls_ok:
  "list_all partial_meta calls \<Longrightarrow> field_ok k (union_of_calls undefined_or_null calls k)"
  unfolding union_of_calls_def by (rule union_ok) (simp_all add: field_ok_def)


lemma read_string_field:
  assumes "field_ok k u" and "k = ''fee'' \<or> k = ''asset'' \<or> k = ''owner''"
  shows "map_option String u = (case u of Some (JStr s) \<Rightarrow> Some s | _ \<Rightarrow> None)"
proof (cases u)
  case None
  then show ?thesis by simp
next
  case (Some v)
  with assms show ?thesis
    by (cases v) (auto simp: field_ok_def undefined_or_null_def)
qed

lemma read_number_field:
  assumes "field_ok k u" and "k = ''createdAt'' \<or> k = ''roundEnd''"
  shows "map_option String u = (case u of Some (JNum n) \<Rightarrow> Some (String_number n) | _ \<Rightarrow> None)"
proof (cases u)
  case None
  then show ?thesis by simp
next
  case (Some v)
  with assms show ?thesis
    by (cases v) (auto simp: field_ok_def undefined_or_null_def)
qed

text \<open>
  C6, as amended. For every sequence of \<open>setRoomMeta\<close> calls with well-typed partial
  records on a room that has no meta yet, \<open>getRoomMeta\<close> returns the union of the fields
  supplied across the calls, later writes overriding earlier ones, where a field supplied
  as \<open>undefined\<close> or as \<open>null\<close> is left untouched; a field never written holds its
  default: \<open>fee\<close> empty, \<open>createdAt\<close> the time of the read, \<open>roundEnd\<close> null, \<open>asset\<close> and
  \<open>owner\<close> unset.
\<close>

theorem merge_then_read:
  assumes typed: "list_all partial_meta calls" and fresh: "meta r roomId = None"
  shows "getRoomMeta now (merge_calls roomId calls r) roomId
         = read_union now (union_of_calls undefined_or_null calls)"
proof -
  let ?u = "union_of_calls undefined_or_null calls"
  let ?raw = "hgetall (meta (merge_calls roomId calls r)) roomId"
  have raw: "?raw k = map_option String (?u k)" for k
    using fresh by (rule stored_fresh)
  have ok: "field_ok k (?u k)" for k
    using typed by (rule union_of_calls_ok)
  have fee: "?raw ''fee'' = (case ?u ''fee'' of Some (JStr s) \<Rightarrow> Some s | _ \<Rightarrow> None)"
    unfolding raw by (rule read_string_field [OF ok]) simp
  have asset: "?raw ''asset'' = (case ?u ''asset'' of Some (JStr s) \<Rightarrow> Some s | _ \<Rightarrow> None)"
    unfolding raw by (rule read_string_field [OF ok]) simp
  have owner: "?raw ''owner'' = (case ?u ''owner'' of Some (JStr s) \<Rightarrow> Some s | _ \<Rightarrow> None)"
    unfolding raw by (rule read_string_field [OF ok]) simp
  have createdAt: "?raw ''createdAt''
      = (case ?u ''createdAt'' of Some (JNum n) \<Rightarrow> Some (String_number n) | _ \<Rightarrow> None)"
    unfolding raw by (rule read_number_field [OF ok]) simp
  have roundEnd: "?raw ''roundEnd''
      = (case ?u ''roundEnd'' of Some (JNum n) \<Rightarrow> Some (String_number n) | _ \<Rightarrow> None)"
    unfolding raw by (rule read_number_field [OF ok]) simp
  have f1: "fee (parseRoomMeta now ?raw) = fee (read_union now ?u)"
    by (simp add: parseRoomMeta_def read_union_def fee split: option.splits jsval.splits)
  have f2: "createdAt (parseRoomMeta now ?raw) = createdAt (read_union now ?u)"
    by (simp add: parseRoomMeta_def read_union_def createdAt String_number_nonempty
        Number_String_number split: option.splits jsval.splits)
  have f3: "asset (parseRoomMeta now ?raw) = asset (read_union now ?u)"
    by (simp add: parseRoomMeta_def read_union_def asset split: option.splits jsval.splits)
  have f4: "roundEnd (parseRoomMeta now ?raw) = roundEnd (read_union now ?u)"
    by (simp add: parseRoomMeta_def read_union_def roundEnd String_number_nonempty
        Number_String_number split: option.splits jsval.splits)
  have f5: "owner (parseRoomMeta now ?raw) = owner (read_union now ?u)"
    by (simp add: parseRoomMeta_def read_union_def owner split: option.splits jsval.splits)
  from f1 f2 f3 f4 f5 show ?thesis
    unfolding getRoomMeta_def by (intro RoomMeta.equality) simp_all
qed

text \<open>
  C6 as stated, with only \<open>undefined\<close> leaving a field untouched, fails: after
  \<open>{roundEnd: 5}\<close> and then \<open>{roundEnd: null}\<close> the union with later writes overriding has
  \<open>roundEnd = null\<close>, and \<open>getRoomMeta\<close> returns 5.
\<close>

theorem merge_null_counterexample:
  "list_all partial_meta [[(''roundEnd'', JNum (Fin 5))], [(''roundEnd'', Null)]]
   \<and> meta empty_redis ''R1'' = None
   \<and> roundEnd (getRoomMeta 0
        (merge_calls ''R1'' [[(''roundEnd'', JNum (Fin 5))], [(''roundEnd'', Null)]] empty_redis)
        ''R1'') = Some (Fin 5)
   \<and> roundEnd (read_union 0
        (union_of_calls undefined_only [[(''roundEnd'', JNum (Fin 5))], [(''roundEnd'', Null)]]))
       = None"
  by (simp add: partial_meta_def empty_redis_def merge_calls_def setRoomMeta_def hset_def
      hgetall_def getRoomMeta_def roundEnd_parse_update read_union_def union_of_calls_def
      undefined_only_def)

theorem merge_then_read_witness:
  "list_all partial_meta
     [[(''fee'', JStr ''10''), (''createdAt'', JNum (Fin 1000)), (''roundEnd'', Null),
       (''owner'', JStr ''W1'')],
      [(''asset'', JStr ''USDC''), (''fee'', Undefined)],
      [(''roundEnd'', JNum (Fin 301000))],
      [(''fee'', JStr ''20''), (''roundEnd'', Null)]]
   \<and> meta empty_redis ''R1'' = None
   \<and> getRoomMeta 5000 (merge_calls ''R1''
        [[(''fee'', JStr ''10''), (''createdAt'', JNum (Fin 1000)), (''roundEnd'', Null),
          (''owner'', JStr ''W1'')],
         [(''asset'', JStr ''USDC''), (''fee'', Undefined)],
         [(''roundEnd'', JNum (Fin 301000))],
         [(''fee'', JStr ''20''), (''roundEnd'', Null)]] empty_redis) ''R1''
       = \<lparr>fee = ''20'', createdAt = Fin 1000, asset = Some ''USDC'',
          roundEnd = Some (Fin 301000), owner = Some ''W1''\<rparr>"
proof -
  let ?calls = "[[(''fee'', JStr ''10''), (''createdAt'', JNum (Fin 1000)), (''roundEnd'', Null),
       (''owner'', JStr ''W1'')],
      [(''asset'', JStr ''USDC''), (''fee'', Undefined)],
      [(''roundEnd'', JNum (Fin 301000))],
      [(''fee'', JStr ''20''), (''roundEnd'', Null)]]"
  have typed: "list_all partial_meta ?calls" by (simp add: partial_meta_def)
  have fresh: "meta empty_redis ''R1'' = None" by (simp add: empty_redis_def)
  have "read_union 5000 (union_of_calls undefined_or_null ?calls)
      = \<lparr>fee = ''20'', createdAt = Fin 1000, asset = Some ''USDC'',
          roundEnd = Some (Fin 301000), owner = Some ''W1''\<rparr>"
    by (simp add: read_union_def union_of_calls_def undefined_or_null_def)
  with merge_then_read [OF typed fresh, of 5000] typed fresh show ?thesis by simp
qed

section \<open>Creating a room\<close>

lemma create_lobby_room_rejects:
  "\<not> truthy roomId \<Longrightarrow>
   create_lobby_room sid entryFee w nick roomId now st
   = (st, [(ToSocket sid, RoomCreateError ''No roomId from contract.'')])"
  by (simp add: create_lobby_room_def)

lemma create_lobby_room_meta:
  assumes "truthy roomId"
  shows "hgetall (meta (store (fst (create_lobby_room sid entryFee w nick roomId now st)))) (String roomId)
     = fold (\<lambda>(f, v) h. h(f \<mapsto> v))
         (fieldsToSet [(''fee'', entryFee), (''createdAt'', JNum (Fin now)),
                       (''roundEnd'', Null), (''owner'', w)])
         (hgetall (meta (store st)) (String roomId))"
  using assms
  by (simp add: create_lobby_room_def Let_def setPlayer_meta hgetall_setRoomMeta del: fieldsToSet.simps)

lemma hgetall_setPlayer:
  "hgetall (player (setPlayer roomId sid partial r)) (roomId, sid)
   = fold (\<lambda>(f, v) h. h(f \<mapsto> v)) (fieldsToSet partial) (hgetall (player r) (roomId, sid))"
  by (simp add: setPlayer_def hgetall_hset_same)

lemma setPlayer_exists:
  "fieldsToSet partial \<noteq> [] \<Longrightarrow> player (setPlayer roomId sid partial r) (roomId, sid) \<noteq> None"
  by (simp add: setPlayer_def hset_def)

lemma create_lobby_room_player:
  assumes "truthy roomId"
  shows "hgetall (player (store (fst (create_lobby_room sid entryFee w nick roomId now st))))
           (String roomId, sid)
     = fold (\<lambda>(f, v) h. h(f \<mapsto> v))
         (fieldsToSet [(''nickname'', nick), (''wallet'', w), (''joinedAt'', JNum (Fin now))])
         (hgetall (player (store st)) (String roomId, sid))
     \<and> player (store (fst (create_lobby_room sid entryFee w nick roomId now st)))
           (String roomId, sid) \<noteq> None"
proof -
  have "fieldsToSet [(''nickname'', nick), (''wallet'', w), (''joinedAt'', JNum (Fin now))] \<noteq> []"
    by simp
  then have "player (setPlayer (String roomId) sid
      [(''nickname'', nick), (''wallet'', w), (''joinedAt'', JNum (Fin now))] r) (String roomId, sid)
      \<noteq> None" for r
    by (rule setPlayer_exists)
  with assms show ?thesis
    by (simp add: create_lobby_room_def Let_def hgetall_setPlayer setRoomMeta_player
        del: fieldsToSet.simps)
qed

lemma create_lobby_room_out:
  "truthy roomId \<Longrightarrow>
   snd (create_lobby_room sid entryFee w nick roomId now st) = [(ToSocket sid, RoomCreated roomId)]
   \<and> rooms (fst (create_lobby_room sid entryFee w nick roomId now st)) = rooms st
   \<and> timers (fst (create_lobby_room sid entryFee w nick roomId now st)) = timers st"
  by (simp add: create_lobby_room_def Let_def)

text \<open>
  C7, as amended. For every successful \<open>create_lobby_room\<close> (a room id that is not
  empty), the meta merged into the store has no \<open>roundEnd\<close> field, the \<open>null\<close> being
  skipped: the stored \<open>roundEnd\<close> is the one from before the call, so that
  \<open>getRoomMeta\<close> returns the \<open>roundEnd\<close> it returned before, which is \<open>null\<close> for a room
  with no \<open>roundEnd\<close> stored. \<open>createdAt\<close> reads as \<open>now\<close>, the caller has a player record
  in the room, joined at \<open>now\<close>, and the only event is \<open>room_created\<close> with the room id,
  sent to the caller alone.
\<close>

theorem create_lobby_room_keeps_roundEnd:
  assumes "truthy roomId"
  shows "let st' = fst (create_lobby_room sid entryFee w nick roomId now st) in
           stored_roundEnd st' (String roomId) = stored_roundEnd st (String roomId)
         \<and> roundEnd (getRoomMeta t (store st') (String roomId))
             = roundEnd (getRoomMeta t (store st) (String roomId))
         \<and> (stored_roundEnd st (String roomId) = None
              \<longrightarrow> roundEnd (getRoomMeta t (store st') (String roomId)) = None)
         \<and> createdAt (getRoomMeta t (store st') (String roomId)) = Fin now
         \<and> player (store st') (String roomId, sid) \<noteq> None
         \<and> joinedAt (parsePlayerData t (hgetall (player (store st')) (String roomId, sid))) = Fin now
         \<and> snd (create_lobby_room sid entryFee w nick roomId now st)
             = [(ToSocket sid, RoomCreated roomId)]
         \<and> recipients st' (ToSocket sid) = {sid}"
proof -
  let ?st' = "fst (create_lobby_room sid entryFee w nick roomId now st)"
  have keep: "stored_roundEnd ?st' (String roomId) = stored_roundEnd st (String roomId)"
    by (rule create_lobby_room_roundEnd)
  then have same: "roundEnd (getRoomMeta t (store ?st') (String roomId))
      = roundEnd (getRoomMeta t (store st) (String roomId))"
    by (simp add: roundEnd_of_stored)
  have fresh: "stored_roundEnd st (String roomId) = None
      \<longrightarrow> roundEnd (getRoomMeta t (store ?st') (String roomId)) = None"
    using keep by (simp add: roundEnd_of_stored)
  have created: "createdAt (getRoomMeta t (store ?st') (String roomId)) = Fin now"
    using assms
    by (simp add: getRoomMeta_def create_lobby_room_meta parseRoomMeta_def Number_String_int
        String_int_nonempty)
  have pl: "player (store ?st') (String roomId, sid) \<noteq> None"
    using create_lobby_room_player [OF assms] by blast
  have joined: "joinedAt (parsePlayerData t (hgetall (player (store ?st')) (String roomId, sid)))
      = Fin now"
    using assms
    by (simp add: create_lobby_room_player parsePlayerData_def Number_String_int
        String_int_nonempty)
  from keep same fresh created pl joined create_lobby_room_out [OF assms, of sid entryFee w nick now st]
  show ?thesis by (simp add: Let_def recipients_def)
qed


text \<open>
  C7 as stated fails on a room that has run a round: wallet \<open>W1\<close> creates \<open>R1\<close> and
  starts a round at 1000, then \<open>create_lobby_room\<close> arrives again for \<open>R1\<close> at 2000. The
  creation succeeds, and \<open>getRoomMeta\<close> returns \<open>roundEnd = 301000\<close>, not \<open>null\<close>.
\<close>

theorem create_lobby_room_roundEnd_counterexample:
  "truthy (JStr ''R1'')
   \<and> snd (create_lobby_room ''s3'' (JStr ''5'') (JStr ''W3'') (JStr ''carol'') (JStr ''R1'') 2000
          (run [CreateLobbyRoom ''s1'' (JStr ''10'') (JStr ''W1'') (JStr ''alice'') (JStr ''R1'') 0,
                StartRound ''s1'' ''R1'' (JStr ''W1'') 1000] init_state))
       = [(ToSocket ''s3'', RoomCreated (JStr ''R1''))]
   \<and> roundEnd (getRoomMeta 2000
        (store (fst (create_lobby_room ''s3'' (JStr ''5'') (JStr ''W3'') (JStr ''carol'') (JStr ''R1'') 2000
          (run [CreateLobbyRoom ''s1'' (JStr ''10'') (JStr ''W1'') (JStr ''alice'') (JStr ''R1'') 0,
                StartRound ''s1'' ''R1'' (JStr ''W1'') 1000] init_state)))) ''R1'')
       = Some (Fin 301000)"
proof -
  let ?st1 = "fst (create_lobby_room ''s1'' (JStr ''10'') (JStr ''W1'') (JStr ''alice'') (JStr ''R1'') 0
      init_state)"
  let ?st2 = "fst (start_round ''s1'' ''R1'' (JStr ''W1'') 1000 ?st1)"
  have raw1: "hgetall (meta (store ?st1)) ''R1''
      = [''fee'' \<mapsto> ''10'', ''createdAt'' \<mapsto> String_int 0, ''owner'' \<mapsto> ''W1'']"
    using create_lobby_room_meta [of "JStr ''R1''" "''s1''" "JStr ''10''" "JStr ''W1''" "JStr ''alice''" 0
        init_state]
    by (simp add: init_state_def empty_redis_def hgetall_def)
  have a: "JStr ''W1'' = js_of_option (owner (getRoomMeta 1000 (store ?st1) ''R1''))"
    by (simp add: getRoomMeta_def raw1 parseRoomMeta_def js_of_option_def)
  have b: "\<not> round_running (getRoomMeta 1000 (store ?st1) ''R1'') 1000"
    by (simp add: getRoomMeta_def raw1 parseRoomMeta_def round_running_def)
  have "roundEnd (getRoomMeta 2000 (store ?st2) ''R1'') = Some (Fin 301000)"
    using start_round_success_roundEnd [OF a b, of 2000 "''s1''"] by simp
  then have "roundEnd (getRoomMeta 2000 (store (fst (create_lobby_room ''s3'' (JStr ''5'')
      (JStr ''W3'') (JStr ''carol'') (JStr ''R1'') 2000 ?st2))) ''R1'') = Some (Fin 301000)"
    using create_lobby_room_roundEnd [of "''s3''" "JStr ''5''" "JStr ''W3''" "JStr ''carol''"
        "JStr ''R1''" 2000 ?st2 "''R1''"]
    by (simp add: roundEnd_of_stored)
  then show ?thesis
    by (simp add: create_lobby_room_out)
qed

theorem create_lobby_room_keeps_roundEnd_witness:
  "truthy (JStr ''R1'')
   \<and> stored_roundEnd init_state (String (JStr ''R1'')) = None
   \<and> roundEnd (getRoomMeta 0 (store (fst (create_lobby_room ''s1'' (JStr ''10'') (JStr ''W1'')
        (JStr ''alice'') (JStr ''R1'') 0 init_state))) (String (JStr ''R1''))) = None
   \<and> snd (create_lobby_room ''s1'' (JStr ''10'') (JStr ''W1'') (JStr ''alice'') (JStr ''R1'') 0
        init_state) = [(ToSocket ''s1'', RoomCreated (JStr ''R1''))]"
proof -
  have h1: "truthy (JStr ''R1'')" by simp
  have h2: "stored_roundEnd init_state (String (JStr ''R1'')) = None"
    by (simp add: stored_roundEnd_def init_state_def empty_redis_def hgetall_def)
  from create_lobby_room_keeps_roundEnd [OF h1, of "''s1''" "JStr ''10''" "JStr ''W1''"
      "JStr ''alice''" 0 init_state 0] h2
  have "roundEnd (getRoomMeta 0 (store (fst (create_lobby_room ''s1'' (JStr ''10'') (JStr ''W1'')
        (JStr ''alice'') (JStr ''R1'') 0 init_state))) (String (JStr ''R1''))) = None
   \<and> snd (create_lobby_room ''s1'' (JStr ''10'') (JStr ''W1'') (JStr ''alice'') (JStr ''R1'') 0
        init_state) = [(ToSocket ''s1'', RoomCreated (JStr ''R1''))]"
    unfolding Let_def by blast
  with h1 h2 show ?thesis by blast
qed

section \<open>Creating a room over an existing one\<close>

lemma create_lobby_room_takeover_meta:
  assumes id: "truthy roomId" and fee: "entryFee \<noteq> Undefined" "entryFee \<noteq> Null"
  shows "hgetall (meta (store (fst (create_lobby_room sid entryFee (JStr W) nick roomId now st))))
           (String roomId)
     = (hgetall (meta (store st)) (String roomId))
         (''fee'' \<mapsto> String entryFee, ''createdAt'' \<mapsto> String_int now, ''owner'' \<mapsto> W)"
  using fee by (simp add: create_lobby_room_meta [OF id])

text \<open>
  C9. For every state, whatever meta the room id already has, a \<open>create_lobby_room\<close>
  with that room id (not empty), an entry fee and a wallet string \<open>W\<close> is accepted and
  leaves \<open>fee\<close>, \<open>createdAt\<close> and \<open>owner\<close> reading as the new entry fee, \<open>now\<close> and \<open>W\<close>.
  A later \<open>start_round\<close> with wallet \<open>W\<close> is never answered with the owner error, and it
  starts a round when none is running.
\<close>

theorem create_lobby_room_takes_over:
  assumes id: "truthy roomId" and fee: "entryFee \<noteq> Undefined" "entryFee \<noteq> Null"
  shows "let st' = fst (create_lobby_room sid entryFee (JStr W) nick roomId now st);
             m' = getRoomMeta t (store st') (String roomId)
         in fee m' = String entryFee
          \<and> createdAt m' = Fin now
          \<and> owner m' = Some W
          \<and> snd (start_round sid' (String roomId) (JStr W) now' st')
              \<noteq> [(ToSocket sid', StartRoundError ''Only room owner can start round.'')]
          \<and> (0 \<le> now' \<and> \<not> roundEnd_after (getRoomMeta now' (store st) (String roomId)) now'
               \<longrightarrow> snd (start_round sid' (String roomId) (JStr W) now' st')
                   = [(ToRoom (String roomId), RoundStarted (Fin (now' + 300000)) (Some W))])"
proof -
  let ?st' = "fst (create_lobby_room sid entryFee (JStr W) nick roomId now st)"
  note raw = create_lobby_room_takeover_meta [OF assms, of sid W nick now st]
  have m': "fee (getRoomMeta t (store ?st') (String roomId)) = String entryFee
      \<and> createdAt (getRoomMeta t (store ?st') (String roomId)) = Fin now
      \<and> owner (getRoomMeta t (store ?st') (String roomId)) = Some W" for t
    by (simp add: getRoomMeta_def raw parseRoomMeta_def Number_String_int String_int_nonempty)
  have own: "JStr W = js_of_option (owner (getRoomMeta now' (store ?st') (String roomId)))"
    by (simp add: m' js_of_option_def)
  have same: "roundEnd (getRoomMeta now' (store ?st') (String roomId))
      = roundEnd (getRoomMeta now' (store st) (String roomId))"
    using create_lobby_room_roundEnd [of sid entryFee "JStr W" nick roomId now st "String roomId"]
    by (simp add: roundEnd_of_stored)
  have guard: "snd (start_round sid' (String roomId) (JStr W) now' ?st')
      \<noteq> [(ToSocket sid', StartRoundError ''Only room owner can start round.'')]"
    using own by (simp add: start_round_def getRoomMeta_def Let_def)
  have succ: "snd (start_round sid' (String roomId) (JStr W) now' ?st')
      = [(ToRoom (String roomId), RoundStarted (Fin (now' + 300000)) (Some W))]"
    if "0 \<le> now'" and "\<not> roundEnd_after (getRoomMeta now' (store st) (String roomId)) now'"
  proof -
    from that same have "\<not> roundEnd_after (getRoomMeta now' (store ?st') (String roomId)) now'"
      by (simp add: roundEnd_after_def)
    with that have "\<not> round_running (getRoomMeta now' (store ?st') (String roomId)) now'"
      by (simp add: round_running_iff)
    from start_round_success [OF own this that(1), of sid'] show ?thesis
      by (simp add: m')
  qed
  from m' [of t] guard succ show ?thesis
    by (simp add: Let_def)
qed

theorem create_lobby_room_takes_over_witness:
  "truthy (JStr ''R1'') \<and> JStr ''5'' \<noteq> Undefined \<and> JStr ''5'' \<noteq> Null
   \<and> owner (getRoomMeta 0 (store example_state) ''R1'') = Some ''W1''
   \<and> owner (getRoomMeta 0 (store (fst (create_lobby_room ''s3'' (JStr ''5'') (JStr ''W3'')
        (JStr ''carol'') (JStr ''R1'') 350000 example_state))) (String (JStr ''R1''))) = Some ''W3''
   \<and> 0 \<le> (400000::int)
   \<and> \<not> roundEnd_after (getRoomMeta 400000 (store example_state) (String (JStr ''R1''))) 400000
   \<and> snd (start_round ''s3'' (String (JStr ''R1'')) (JStr ''W3'') 400000
        (fst (create_lobby_room ''s3'' (JStr ''5'') (JStr ''W3'')
        (JStr ''carol'') (JStr ''R1'') 350000 example_state)))
       = [(ToRoom (String (JStr ''R1'')), RoundStarted (Fin (400000 + 300000)) (Some ''W3''))]"
proof -
  have h1: "truthy (JStr ''R1'')" by simp
  have h2: "JStr ''5'' \<noteq> Undefined" "JStr ''5'' \<noteq> Null" by simp_all
  have h3: "owner (getRoomMeta 0 (store example_state) ''R1'') = Some ''W1''"
    by (simp add: example_meta_R1)
  have h4: "0 \<le> (400000::int)
      \<and> \<not> roundEnd_after (getRoomMeta 400000 (store example_state) (String (JStr ''R1''))) 400000"
    by (simp add: example_meta_R1 roundEnd_after_def)
  from create_lobby_room_takes_over [OF h1 h2, of "''s3''" "''W3''" "JStr ''carol''" 350000
      example_state 0 "''s3''" 400000] h4
  have "owner (getRoomMeta 0 (store (fst (create_lobby_room ''s3'' (JStr ''5'') (JStr ''W3'')
        (JStr ''carol'') (JStr ''R1'') 350000 example_state))) (String (JStr ''R1''))) = Some ''W3''
   \<and> snd (start_round ''s3'' (String (JStr ''R1'')) (JStr ''W3'') 400000
        (fst (create_lobby_room ''s3'' (JStr ''5'') (JStr ''W3'')
        (JStr ''carol'') (JStr ''R1'') 350000 example_state)))
       = [(ToRoom (String (JStr ''R1'')), RoundStarted (Fin (400000 + 300000)) (Some ''W3''))]"
    unfolding Let_def by blast
  with h1 h2 h3 h4 show ?thesis by blast
qed

section \<open>Room membership\<close>

lemma rooms_startTimer: "rooms (startTimer roomId now st) = rooms st"
  by (simp add: startTimer_def split: option.splits number.splits)

lemma start_round_rooms: "rooms (fst (start_round sid roomId w now st)) = rooms st"
  by (simp add: start_round_def Let_def rooms_startTimer)

lemma join_rooms:
  "rooms (fst (join sid roomId nick w asset_opt now st))
   = (rooms st)(sid := socket_join roomId (rooms st sid))"
  by (simp add: join_def Let_def)

lemma create_lobby_room_rooms:
  "rooms (fst (create_lobby_room sid entryFee w nick roomId now st)) = rooms st"
  by (simp add: create_lobby_room_def Let_def)

lemma step_subscribes:
  assumes "room \<in> set (rooms (fst (step ev st)) s)" and "room \<notin> set (rooms st s)"
  shows "is_join_of s room ev"
proof (cases ev)
  case (CreateLobbyRoom sid entryFee w nick roomId now)
  with assms show ?thesis by (simp add: create_lobby_room_rooms)
next
  case (Join sid roomId nick w asset_opt now)
  with assms show ?thesis
    by (auto simp: join_rooms socket_join_def split: if_splits)
next
  case (StartRound sid roomId w now)
  with assms show ?thesis by (simp add: start_round_rooms)
next
  case (SetNickname sid roomId nick now)
  with assms show ?thesis by (simp add: set_nickname_def Let_def)
next
  case (DrawingSubmit sid roomId drawing)
  with assms show ?thesis by (simp add: drawing_submit_def)
next
  case (Disconnect sid now)
  with assms show ?thesis by (auto simp: case_prod_beta split: if_splits)
next
  case (Tick i now)
  with assms show ?thesis by (auto simp: case_prod_beta split: if_splits)
qed

lemma run_not_subscribed:
  "room \<notin> set (rooms st s) \<Longrightarrow> list_all (\<lambda>ev. \<not> is_join_of s room ev) evs \<Longrightarrow>
   room \<notin> set (rooms (run evs st) s)"
proof (induction evs arbitrary: st)
  case Nil
  then show ?case by simp
next
  case (Cons ev evs)
  from Cons.prems have "\<not> is_join_of s room ev" by simp
  with step_subscribes [of room ev st s] Cons.prems(1)
  have "room \<notin> set (rooms (fst (step ev st)) s)" by blast
  with Cons.IH [of "fst (step ev st)"] Cons.prems(2) show ?case by simp
qed

text \<open>
  C10. A successful \<open>create_lobby_room\<close> leaves \<open>socket.rooms\<close> of every connection as
  it was and sends only \<open>room_created\<close>, to the caller. A connection gets into a room by
  its own \<open>join\<close> for that room and by no other event. So a creator that was not in the
  room is, after the creation and any run of events without a \<open>join\<close> of its own for the
  room, not among the recipients of what is sent to the room.
\<close>

theorem create_lobby_room_does_not_subscribe:
  "(truthy roomId \<longrightarrow>
      rooms (fst (create_lobby_room sid entryFee w nick roomId now st)) = rooms st
      \<and> snd (create_lobby_room sid entryFee w nick roomId now st)
          = [(ToSocket sid, RoomCreated roomId)])
   \<and> (room \<in> set (rooms (fst (step ev st)) s) \<and> room \<notin> set (rooms st s) \<longrightarrow> is_join_of s room ev)
   \<and> (truthy roomId \<and> String roomId \<notin> set (rooms st sid)
        \<and> list_all (\<lambda>ev. \<not> is_join_of sid (String roomId) ev) evs
      \<longrightarrow> sid \<notin> recipients (run evs (fst (create_lobby_room sid entryFee w nick roomId now st)))
                  (ToRoom (String roomId)))"
proof (intro conjI impI)
  assume "truthy roomId"
  then show "rooms (fst (create_lobby_room sid entryFee w nick roomId now st)) = rooms st"
    and "snd (create_lobby_room sid entryFee w nick roomId now st)
          = [(ToSocket sid, RoomCreated roomId)]"
    by (simp_all add: create_lobby_room_out)
next
  assume "room \<in> set (rooms (fst (step ev st)) s) \<and> room \<notin> set (rooms st s)"
  then show "is_join_of s room ev" using step_subscribes by blast
next
  assume a: "truthy roomId \<and> String roomId \<notin> set (rooms st sid)
        \<and> list_all (\<lambda>ev. \<not> is_join_of sid (String roomId) ev) evs"
  then have "String roomId
      \<notin> set (rooms (fst (create_lobby_room sid entryFee w nick roomId now st)) sid)"
    by (simp add: create_lobby_room_rooms)
  with a have "String roomId
      \<notin> set (rooms (run evs (fst (create_lobby_room sid entryFee w nick roomId now st))) sid)"
    by (simp add: run_not_subscribed)
  then show "sid \<notin> recipients (run evs (fst (create_lobby_room sid entryFee w nick roomId now st)))
                  (ToRoom (String roomId))"
    by (simp add: recipients_def)
qed

theorem create_lobby_room_does_not_subscribe_witness:
  "truthy (JStr ''R1'')
   \<and> rooms (fst (create_lobby_room ''s1'' (JStr ''10'') (JStr ''W1'') (JStr ''alice'') (JStr ''R1'') 0
        init_state)) = rooms init_state
   \<and> ''R1'' \<in> set (rooms (fst (step (Join ''s1'' ''R1'' ''alice'' ''W1'' None 10) init_state)) ''s1'')
   \<and> ''R1'' \<notin> set (rooms init_state ''s1'')
   \<and> is_join_of ''s1'' ''R1'' (Join ''s1'' ''R1'' ''alice'' ''W1'' None 10)
   \<and> String (JStr ''R1'') \<notin> set (rooms init_state ''s1'')
   \<and> list_all (\<lambda>ev. \<not> is_join_of ''s1'' (String (JStr ''R1'')) ev)
        [Join ''s2'' ''R1'' ''bob'' ''W2'' None 10, StartRound ''s1'' ''R1'' (JStr ''W1'') 20,
         DrawingSubmit ''s1'' ''R1'' ''sketch'']
   \<and> ''s1'' \<notin> recipients (run [Join ''s2'' ''R1'' ''bob'' ''W2'' None 10,
          StartRound ''s1'' ''R1'' (JStr ''W1'') 20, DrawingSubmit ''s1'' ''R1'' ''sketch'']
        (fst (create_lobby_room ''s1'' (JStr ''10'') (JStr ''W1'') (JStr ''alice'') (JStr ''R1'') 0
          init_state))) (ToRoom (String (JStr ''R1'')))
   \<and> ''s2'' \<in> recipients (run [Join ''s2'' ''R1'' ''bob'' ''W2'' None 10,
          StartRound ''s1'' ''R1'' (JStr ''W1'') 20, DrawingSubmit ''s1'' ''R1'' ''sketch'']
        (fst (create_lobby_room ''s1'' (JStr ''10'') (JStr ''W1'') (JStr ''alice'') (JStr ''R1'') 0
          init_state))) (ToRoom (String (JStr ''R1'')))"
proof -
  let ?evs = "[Join ''s2'' ''R1'' ''bob'' ''W2'' None 10, StartRound ''s1'' ''R1'' (JStr ''W1'') 20,
         DrawingSubmit ''s1'' ''R1'' ''sketch'']"
  let ?st1 = "fst (create_lobby_room ''s1'' (JStr ''10'') (JStr ''W1'') (JStr ''alice'') (JStr ''R1'') 0
        init_state)"
  have h1: "truthy (JStr ''R1'')" by simp
  have h2: "''R1'' \<in> set (rooms (fst (step (Join ''s1'' ''R1'' ''alice'' ''W1'' None 10) init_state)) ''s1'')"
    by (simp add: join_rooms socket_join_def init_state_def)
  have h3: "''R1'' \<notin> set (rooms init_state ''s1'')"
    by (simp add: init_state_def)
  have h4: "list_all (\<lambda>ev. \<not> is_join_of ''s1'' (String (JStr ''R1'')) ev) ?evs"
    by simp
  have h5: "''s2'' \<in> recipients (run ?evs ?st1) (ToRoom (String (JStr ''R1'')))"
    by (simp add: recipients_def drawing_submit_def start_round_rooms join_rooms
        create_lobby_room_rooms socket_join_def init_state_def)
  from create_lobby_room_does_not_subscribe
    [of "JStr ''R1''" "''s1''" "JStr ''10''" "JStr ''W1''" "JStr ''alice''" 0 init_state "''R1''"
      "Join ''s1'' ''R1'' ''alice'' ''W1'' None 10" "''s1''" ?evs]
    h1 h2 h3 h4 h5
  show ?thesis by simp
qed

end
